theory Spec2Isabelle
  imports Complex_Main "HOL-Library.Multiset"
begin

section \<open>Python string and number operations used by the code\<close>

definition starts_with :: "string \<Rightarrow> string \<Rightarrow> bool" where
  "starts_with sub s = (take (length sub) s = sub)"

fun py_in :: "string \<Rightarrow> string \<Rightarrow> bool" where
  \<comment> \<open>\<open>sub in s\<close>\<close>
  "py_in sub [] = (sub = [])"
| "py_in sub (c # cs) = (starts_with sub (c # cs) \<or> py_in sub cs)"

fun split_first :: "string \<Rightarrow> string \<Rightarrow> (string \<times> string) option" where
  \<comment> \<open>the text before and after the leftmost occurrence of \<open>sep\<close>\<close>
  "split_first sep [] = (if sep = [] then Some ([], []) else None)"
| "split_first sep (c # cs) =
     (if starts_with sep (c # cs) then Some ([], drop (length sep) (c # cs))
      else (case split_first sep cs of
              None \<Rightarrow> None
            | Some (a, b) \<Rightarrow> Some (c # a, b)))"

lemma split_first_length:
  "split_first sep s = Some (a, b) \<Longrightarrow> length a + length sep + length b = length s"
proof (induction s arbitrary: a)
  case Nil
  then show ?case by (simp split: if_splits)
next
  case (Cons c cs)
  show ?case
  proof (cases "starts_with sep (c # cs)")
    case True
    then have "length (take (length sep) (c # cs)) = length sep"
      unfolding starts_with_def by simp
    then have "length sep \<le> length (c # cs)"
      by simp
    with True Cons.prems show ?thesis by auto
  next
    case False
    with Cons.prems obtain a' where "split_first sep cs = Some (a', b)" "a = c # a'"
      by (auto split: option.splits)
    with Cons.IH show ?thesis by fastforce
  qed
qed

function py_split :: "string \<Rightarrow> string \<Rightarrow> string list" where
  \<comment> \<open>\<open>s.split(sep)\<close>; Python raises on an empty separator, which no call site passes\<close>
  "py_split sep s =
     (if sep = [] then [s]
      else (case split_first sep s of
              None \<Rightarrow> [s]
            | Some (a, b) \<Rightarrow> a # py_split sep b))"
  by pat_completeness auto
termination
proof (relation "measure (\<lambda>(sep, s). length s)")
  show "wf (measure (\<lambda>(sep, s). length s))" by simp
next
  fix sep s :: string and x2 x y
  assume "sep \<noteq> []" "split_first sep s = Some x2" "(x, y) = x2"
  then have "length x + length sep + length y = length s"
    using split_first_length by metis
  with \<open>sep \<noteq> []\<close> show "((sep, y), (sep, s)) \<in> measure (\<lambda>(sep, s). length s)"
    by (cases sep) auto
qed

declare py_split.simps [simp del]

definition py_isspace :: "char \<Rightarrow> bool" where
  \<comment> \<open>the whitespace of \<open>str.strip()\<close> among the first 256 code points\<close>
  "py_isspace c =
     (let n = of_char c :: nat
      in (9 \<le> n \<and> n \<le> 13) \<or> (28 \<le> n \<and> n \<le> 32) \<or> n = 133 \<or> n = 160)"

definition py_strip :: "string \<Rightarrow> string" where
  "py_strip s = rev (dropWhile py_isspace (rev (dropWhile py_isspace s)))"

definition py_str_opt :: "string option \<Rightarrow> string" where
  \<comment> \<open>\<open>str(x)\<close> for \<open>x: str | None\<close>\<close>
  "py_str_opt x = (case x of None \<Rightarrow> ''None'' | Some v \<Rightarrow> v)"

definition py_round :: "real \<Rightarrow> int" where
  \<comment> \<open>\<open>round(x)\<close> of Python 3: to the nearest integer, a tie to the even one\<close>
  "py_round x =
     (let f = \<lfloor>x\<rfloor>; d = x - of_int f
      in if d < 1 / 2 then f
         else if 1 / 2 < d then f + 1
         else if even f then f else f + 1)"

section \<open>Data model (baezi/models.py)\<close>

text \<open>
  Python strings are modelled as \<open>string\<close>; one \<open>char\<close> stands for one code point, so
  that slicing and \<open>len\<close> count what Python counts. A \<open>datetime\<close> is naive and has
  microsecond resolution: it is the number of microseconds since a fixed epoch. A
  \<open>float\<close> amount is idealised as a real number.
\<close>

datatype TransactionType = INCOME | EXPENSE | TRANSFER

fun TransactionType_value :: "TransactionType \<Rightarrow> int" where
  "TransactionType_value INCOME = 2"
| "TransactionType_value EXPENSE = 3"
| "TransactionType_value TRANSFER = 4"

datatype Direction = CREDIT | DEBIT

datatype BookingStatus = BOOKED | PENDING

datatype py_error = ValueError | APIError | KeyError | IndexError

type_synonym datetime = int

definition usec_per_day :: int where
  "usec_per_day = 86400000000"

definition datetime_of_day :: "int \<Rightarrow> datetime" where
  \<comment> \<open>midnight of the day with the given ordinal: what \<open>strptime(s, "%Y-%m-%d")\<close> yields\<close>
  "datetime_of_day d = d * usec_per_day"

definition timedelta_days :: "int \<Rightarrow> int" where
  \<comment> \<open>\<open>timedelta.days\<close>: a timedelta is normalised with a non-negative remainder\<close>
  "timedelta_days delta = delta div usec_per_day"

record B4Transaction =
  b4_id :: string
  booking_date :: datetime
  amount :: real
  description :: string
  direction :: Direction
  category :: string
  booking_status :: BookingStatus
  account_id :: string

definition is_booked :: "B4Transaction \<Rightarrow> bool" where
  "is_booked tx = (booking_status tx = BOOKED)"

definition is_transfer :: "B4Transaction \<Rightarrow> bool" where
  "is_transfer tx = (category tx = ''Umbuchung'')"

definition transaction_type :: "B4Transaction \<Rightarrow> TransactionType" where
  "transaction_type tx =
     (if is_transfer tx then TRANSFER
      else if direction tx = CREDIT then INCOME else EXPENSE)"

definition is_income :: "B4Transaction \<Rightarrow> bool" where
  "is_income tx = (direction tx = CREDIT)"

definition is_expense :: "B4Transaction \<Rightarrow> bool" where
  "is_expense tx = (direction tx = DEBIT)"

subsection \<open>Parsing a source record (B4Transaction.from\_json)\<close>

text \<open>
  One entry of an export file. A field is \<open>None\<close> when the key is absent. The two
  conversions done by the standard library are recorded by their outcome: \<open>Parsed d\<close>
  for a date string that \<open>strptime\<close> reads as day \<open>d\<close> and \<open>Parsed x\<close> for an amount
  that \<open>float\<close> reads as \<open>x\<close>; \<open>Unparsable\<close> when the conversion raises \<open>ValueError\<close>.
  \<open>json_Id\<close> holds \<open>str(data["Id"])\<close>.
\<close>

datatype 'a parsed = Parsed 'a | Unparsable

record b4_json =
  json_Id :: "string option"
  json_BookgDt :: "int parsed option"
  json_Amt :: "real parsed option"
  json_RmtInf :: "string option"
  json_CdtDbtInd :: "string option"
  json_Category :: "string option"
  json_BookgSts :: "string option"

definition Direction_of :: "string \<Rightarrow> py_error + Direction" where
  "Direction_of v =
     (if v = ''CRDT'' then Inr CREDIT
      else if v = ''DBIT'' then Inr DEBIT
      else Inl ValueError)"

definition BookingStatus_of :: "string \<Rightarrow> py_error + BookingStatus" where
  "BookingStatus_of v =
     (if v = ''BOOK'' then Inr BOOKED
      else if v = ''PDNG'' then Inr PENDING
      else Inl ValueError)"

definition dict_get :: "'a option \<Rightarrow> 'a \<Rightarrow> 'a" where
  \<comment> \<open>\<open>d.get(key, default)\<close>, applied to the looked-up field\<close>
  "dict_get field dflt = (case field of None \<Rightarrow> dflt | Some v \<Rightarrow> v)"

definition from_json :: "b4_json \<Rightarrow> string \<Rightarrow> py_error + B4Transaction" where
  "from_json data acc_id =
     (case (json_Id data, json_BookgDt data, json_Amt data, json_RmtInf data,
            json_CdtDbtInd data) of
        (Some i, Some dt, Some amt, Some rmt, Some ind) \<Rightarrow>
          (case dt of
             Unparsable \<Rightarrow> Inl ValueError
           | Parsed day \<Rightarrow>
               (case amt of
                  Unparsable \<Rightarrow> Inl ValueError
                | Parsed raw_amount \<Rightarrow>
                    (case Direction_of ind of
                       Inl e \<Rightarrow> Inl ValueError
                     | Inr dir \<Rightarrow>
                         (case BookingStatus_of (dict_get (json_BookgSts data) ''BOOK'') of
                            Inl e \<Rightarrow> Inl ValueError
                          | Inr status \<Rightarrow>
                              Inr \<lparr>b4_id = i,
                                   booking_date = datetime_of_day day,
                                   amount = \<bar>raw_amount\<bar>,
                                   description = rmt,
                                   direction = dir,
                                   category = dict_get (json_Category data) [],
                                   booking_status = status,
                                   account_id = acc_id\<rparr>))))
      | _ \<Rightarrow> Inl ValueError)"

record TransferPair =
  source_tx :: B4Transaction
  dest_tx :: B4Transaction

definition sender :: "TransferPair \<Rightarrow> B4Transaction" where
  "sender pair = (if direction (source_tx pair) = DEBIT then source_tx pair else dest_tx pair)"

definition receiver :: "TransferPair \<Rightarrow> B4Transaction" where
  "receiver pair = (if direction (dest_tx pair) = CREDIT then dest_tx pair else source_tx pair)"

definition combined_id :: "TransferPair \<Rightarrow> string" where
  "combined_id pair = b4_id (source_tx pair) @ ''_'' @ b4_id (dest_tx pair)"

definition pair_amount :: "TransferPair \<Rightarrow> real" where
  "pair_amount pair = amount (source_tx pair)"

definition pair_date :: "TransferPair \<Rightarrow> datetime" where
  "pair_date pair = min (booking_date (source_tx pair)) (booking_date (dest_tx pair))"

section \<open>Transfer matcher (baezi/importers/transfer\_matcher.py)\<close>

definition is_match :: "int \<Rightarrow> B4Transaction \<Rightarrow> B4Transaction \<Rightarrow> bool" where
  "is_match tolerance_days tx1 tx2 =
     (amount tx1 = amount tx2
      \<and> account_id tx1 \<noteq> account_id tx2
      \<and> direction tx1 \<noteq> direction tx2
      \<and> \<bar>timedelta_days (booking_date tx1 - booking_date tx2)\<bar> \<le> tolerance_days)"

fun find_partner ::
  "int \<Rightarrow> B4Transaction \<Rightarrow> B4Transaction list \<Rightarrow> string set \<Rightarrow> string set
     \<Rightarrow> B4Transaction option" where
  "find_partner tol tx [] processed existing_ids = None"
| "find_partner tol tx (candidate # candidates) processed existing_ids =
     (if b4_id candidate \<in> processed \<or> b4_id candidate \<in> existing_ids
      then find_partner tol tx candidates processed existing_ids
      else if is_match tol tx candidate then Some candidate
      else find_partner tol tx candidates processed existing_ids)"

text \<open>
  The loop of \<open>find_matches\<close>: the list argument is \<open>transfers[i:]\<close>, so the candidates
  handed to \<open>find_partner\<close> are \<open>transfers[i + 1:]\<close>. The state is
  \<open>(matches, unmatched, processed)\<close>.
\<close>

fun find_matches_loop ::
  "int \<Rightarrow> string set \<Rightarrow> B4Transaction list
     \<Rightarrow> TransferPair list \<times> B4Transaction list \<times> string set
     \<Rightarrow> TransferPair list \<times> B4Transaction list \<times> string set" where
  "find_matches_loop tol existing_ids [] st = st"
| "find_matches_loop tol existing_ids (tx1 # rest) (matches, unmatched, processed) =
     (if b4_id tx1 \<in> processed \<or> b4_id tx1 \<in> existing_ids
      then find_matches_loop tol existing_ids rest (matches, unmatched, processed)
      else (case find_partner tol tx1 rest processed existing_ids of
              Some partner \<Rightarrow>
                find_matches_loop tol existing_ids rest
                  (matches @ [\<lparr>source_tx = tx1, dest_tx = partner\<rparr>], unmatched,
                   processed \<union> {b4_id tx1, b4_id partner})
            | None \<Rightarrow>
                find_matches_loop tol existing_ids rest
                  (matches, unmatched @ [tx1], insert (b4_id tx1) processed)))"

definition find_matches ::
  "int \<Rightarrow> B4Transaction list \<Rightarrow> string set \<Rightarrow> TransferPair list \<times> B4Transaction list" where
  "find_matches tol transfers existing_ids =
     (case find_matches_loop tol existing_ids transfers ([], [], {}) of
        (matches, unmatched, processed) \<Rightarrow> (matches, unmatched))"

section \<open>The remote ledger and the state of a run\<close>

text \<open>
  The answer of the API client to a creation request: \<open>ApiRaise\<close> when the client
  raises (\<open>APIError\<close>), otherwise the decoded body, of which the code reads the
  truth value of \<open>"success"\<close> and, for categories, \<open>result.id\<close> (absent: \<open>None\<close>).
\<close>

datatype api_response = ApiRaise | ApiResp bool "string option"

fun is_success :: "api_response \<Rightarrow> bool" where
  "is_success ApiRaise = False"
| "is_success (ApiResp ok cid) = ok"

record category_payload =
  cp_name :: string
  cp_type :: int
  cp_parentId :: string
  cp_icon :: string
  cp_color :: string

record transaction_payload =
  tp_type :: int
  tp_time :: int
  tp_utcOffset :: int
  tp_categoryId :: string
  tp_tagIds :: "string list"
  tp_comment :: string
  tp_sourceAccountId :: string
  tp_sourceAmount :: int
  tp_destinationAccountId :: "string option"
  tp_destinationAmount :: "int option"

record ezb_transaction =
  ezb_comment :: "string option"

record ImportStats =
  skipped :: int
  new_transactions :: int
  new_transfers :: int
  new_categories :: int
  errors :: int

definition ImportStats_init :: ImportStats where
  "ImportStats_init =
     \<lparr>skipped = 0, new_transactions = 0, new_transfers = 0, new_categories = 0, errors = 0\<rparr>"

definition increment_skipped :: "ImportStats \<Rightarrow> ImportStats" where
  "increment_skipped st = st\<lparr>skipped := skipped st + 1\<rparr>"

definition increment_transactions :: "ImportStats \<Rightarrow> ImportStats" where
  "increment_transactions st = st\<lparr>new_transactions := new_transactions st + 1\<rparr>"

definition increment_transfers :: "ImportStats \<Rightarrow> ImportStats" where
  "increment_transfers st = st\<lparr>new_transfers := new_transfers st + 1\<rparr>"

definition increment_categories :: "ImportStats \<Rightarrow> ImportStats" where
  "increment_categories st = st\<lparr>new_categories := new_categories st + 1\<rparr>"

definition increment_errors :: "ImportStats \<Rightarrow> ImportStats" where
  "increment_errors st = st\<lparr>errors := errors st + 1\<rparr>"

text \<open>
  A key of \<open>CategoryService._category_map\<close>. The code formats it as
  \<open>f"{cat_type}_{name}"\<close>; the pair is kept instead, since the decimal numeral
  has no underscore and so distinct pairs are distinct strings.
\<close>

type_synonym category_key = "int \<times> string"

text \<open>
  What a run reads and does not change: the configuration, the export files in the order
  of \<open>glob\<close> (file stem and decoded array), the account map, the transfer categories
  found at start-up, the clock, and the behaviour of the target ledger. The ledger answers
  the \<open>n\<close>-th creation request as \<open>create_transaction_api n\<close> and
  \<open>create_category_api n\<close> say, so it may answer the same request differently each time.
  \<open>min_booking_day\<close> is the day of \<open>config.min_booking_date\<close>: both sides of the date
  filter are ISO dates, which compare as strings the way the days compare.
\<close>

record env =
  json_files :: "(string \<times> b4_json list) list"
  min_booking_day :: int
  transfer_tolerance_days :: int
  account_map :: "string \<rightharpoonup> string"
  transfer_category_id :: string
  external_income_category :: string
  external_expense_category :: string
  utc_offset_minutes :: int
  local_timestamp :: "datetime \<Rightarrow> int"
  create_transaction_api :: "nat \<Rightarrow> transaction_payload \<Rightarrow> api_response"
  create_category_api :: "nat \<Rightarrow> category_payload \<Rightarrow> api_response"
  get_all_transactions_raises :: bool

text \<open>
  What a run changes: the transactions stored by the target ledger, the creation requests
  sent so far, the category map and statistics of the services, and the set of existing
  ids.
\<close>

record state =
  ledger :: "ezb_transaction list"
  transaction_calls :: nat
  category_calls :: "(category_payload \<times> api_response) list"
  category_map :: "category_key \<rightharpoonup> string"
  stats :: ImportStats
  existing_ids :: "string set"

definition api_create_category ::
  "env \<Rightarrow> category_payload \<Rightarrow> state \<Rightarrow> api_response \<times> state" where
  "api_create_category e payload s =
     (let res = create_category_api e (length (category_calls s)) payload
      in (res, s\<lparr>category_calls := category_calls s @ [(payload, res)]\<rparr>))"

definition api_create_transaction ::
  "env \<Rightarrow> transaction_payload \<Rightarrow> state \<Rightarrow> api_response \<times> state" where
  \<comment> \<open>the ledger stores a transaction, comment unchanged, exactly when it answers success\<close>
  "api_create_transaction e payload s =
     (let res = create_transaction_api e (transaction_calls s) payload
      in (res,
          s\<lparr>transaction_calls := Suc (transaction_calls s),
            ledger := (if is_success res
                       then ledger s @ [\<lparr>ezb_comment = Some (tp_comment payload)\<rparr>]
                       else ledger s)\<rparr>))"

section \<open>Category service (baezi/services/category\_service.py)\<close>

definition create_missing_category ::
  "env \<Rightarrow> category_key \<Rightarrow> category_payload \<Rightarrow> state \<Rightarrow> bool \<times> state" where
  \<comment> \<open>the block \<open>if key not in self._category_map: try: ...\<close>, the same at both levels;
      \<open>False\<close> stands for the early return of the fallback id\<close>
  "create_missing_category e key payload s =
     (if category_map s key = None
      then (case api_create_category e payload s of
              (ApiRaise, s1) \<Rightarrow> (False, s1)
            | (ApiResp ok None, s1) \<Rightarrow> (False, s1)
            | (ApiResp ok (Some cid), s1) \<Rightarrow>
                (if ok
                 then (True, s1\<lparr>category_map := (category_map s1)(key \<mapsto> cid),
                                stats := increment_categories (stats s1)\<rparr>)
                 else (False, s1)))
      else (True, s))"

definition ensure_category_hierarchy ::
  "env \<Rightarrow> string \<Rightarrow> int \<Rightarrow> state \<Rightarrow> (py_error + string) \<times> state" where
  "ensure_category_hierarchy e full_path trans_type s =
     (if full_path = [] \<or> full_path = ''Umbuchung'' then (Inr ''0'', s)
      else
        let cat_type = (if trans_type = 2 then 1 else 2);
            parts = map py_strip (py_split '':'' full_path)
        in (case parts of
              [] \<Rightarrow> (Inl IndexError, s)
            | main_name # more_parts \<Rightarrow>
                (case create_missing_category e (cat_type, main_name)
                        \<lparr>cp_name = main_name, cp_type = cat_type, cp_parentId = ''0'',
                         cp_icon = ''1'', cp_color = ''8e8e93''\<rparr> s of
                   (False, s1) \<Rightarrow> (Inr ''0'', s1)
                 | (True, s1) \<Rightarrow>
                     (case category_map s1 (cat_type, main_name) of
                        None \<Rightarrow> (Inl KeyError, s1)
                      | Some parent_id \<Rightarrow>
                          (case more_parts of
                             [] \<Rightarrow> (Inr parent_id, s1)
                           | sub_name # ignored \<Rightarrow>
                               (case create_missing_category e
                                       (cat_type, main_name @ '':'' @ sub_name)
                                       \<lparr>cp_name = sub_name, cp_type = cat_type,
                                        cp_parentId = parent_id, cp_icon = ''1'',
                                        cp_color = ''8e8e93''\<rparr> s1 of
                                  (False, s2) \<Rightarrow> (Inr parent_id, s2)
                                | (True, s2) \<Rightarrow>
                                    (case category_map s2
                                            (cat_type, main_name @ '':'' @ sub_name) of
                                       None \<Rightarrow> (Inl KeyError, s2)
                                     | Some cid \<Rightarrow> (Inr cid, s2))))))))"

definition get_external_transfer_category :: "env \<Rightarrow> bool \<Rightarrow> string" where
  "get_external_transfer_category e income =
     (if income then external_income_category e else external_expense_category e)"

section \<open>Account service (baezi/services/account\_service.py)\<close>

definition get_ezb_account_id :: "env \<Rightarrow> string \<Rightarrow> string option" where
  "get_ezb_account_id e b4_account_id = account_map e b4_account_id"

definition has_account :: "env \<Rightarrow> string \<Rightarrow> bool" where
  "has_account e b4_account_id = (account_map e b4_account_id \<noteq> None)"

section \<open>Transaction import service (baezi/services/transaction\_service.py)\<close>

definition create_transaction_payload ::
  "env \<Rightarrow> string option \<Rightarrow> real \<Rightarrow> datetime \<Rightarrow> string \<Rightarrow> string \<Rightarrow> TransactionType
     \<Rightarrow> string \<Rightarrow> string option \<Rightarrow> transaction_payload" where
  "create_transaction_payload e acc_id amt booking_dt desc category_id trans_type b4id
       partner_acc_id =
     (let amt_cents = py_round (\<bar>amt\<bar> * 100);
          clean_desc = take 200 desc;
          final_comment = clean_desc @ '' [B4ID:'' @ b4id @ '']'';
          category_id' =
            (if trans_type = TRANSFER \<and> transfer_category_id e \<noteq> ''0''
             then transfer_category_id e else category_id)
      in \<lparr>tp_type = TransactionType_value trans_type,
          tp_time = local_timestamp e booking_dt,
          tp_utcOffset = utc_offset_minutes e,
          tp_categoryId = category_id',
          tp_tagIds = [],
          tp_comment = final_comment,
          tp_sourceAccountId = py_str_opt acc_id,
          tp_sourceAmount = amt_cents,
          tp_destinationAccountId =
            (if trans_type = TRANSFER then Some (py_str_opt partner_acc_id) else None),
          tp_destinationAmount =
            (if trans_type = TRANSFER then Some amt_cents else None)\<rparr>)"

subsection \<open>Phase 1: the ids already in the ledger\<close>

definition raw_id_str :: "string \<Rightarrow> py_error + string" where
  \<comment> \<open>\<open>comment.split("[B4ID:")[1].split("]")[0]\<close>\<close>
  "raw_id_str comment =
     (case py_split ''[B4ID:'' comment of
        before # after # others \<Rightarrow>
          (case py_split '']'' after of
             [] \<Rightarrow> Inl IndexError
           | raw # rest \<Rightarrow> Inr raw)
      | _ \<Rightarrow> Inl IndexError)"

fun load_ids_loop :: "ezb_transaction list \<Rightarrow> string set \<Rightarrow> string set" where
  \<comment> \<open>the loop over the listed transactions; an exception ends it with the ids found so far\<close>
  "load_ids_loop [] all_b4_ids = all_b4_ids"
| "load_ids_loop (tx # txs) all_b4_ids =
     (let comment = dict_get (ezb_comment tx) []
      in if py_in ''[B4ID:'' comment
         then (case raw_id_str comment of
                 Inl err \<Rightarrow> all_b4_ids
               | Inr raw \<Rightarrow> load_ids_loop txs (all_b4_ids \<union> set (py_split ''_'' raw)))
         else load_ids_loop txs all_b4_ids)"

definition load_existing_ids :: "env \<Rightarrow> state \<Rightarrow> string set" where
  "load_existing_ids e s =
     (if get_all_transactions_raises e then {} else load_ids_loop (ledger s) {})"

subsection \<open>Phase 2: ordinary transactions\<close>

definition import_single_transaction ::
  "env \<Rightarrow> B4Transaction \<Rightarrow> string option \<Rightarrow> state \<Rightarrow> py_error + (bool \<times> state)" where
  \<comment> \<open>only \<open>APIError\<close> is caught: any other exception leaves the function\<close>
  "import_single_transaction e tx acc_id s =
     (case ensure_category_hierarchy e (category tx)
             (TransactionType_value (transaction_type tx)) s of
        (Inl err, s1) \<Rightarrow> Inl err
      | (Inr cat_id, s1) \<Rightarrow>
          (case api_create_transaction e
                  (create_transaction_payload e acc_id (amount tx) (booking_date tx)
                     (description tx) cat_id (transaction_type tx) (b4_id tx) (Some ''0'')) s1 of
             (ApiRaise, s2) \<Rightarrow> Inr (False, s2\<lparr>stats := increment_errors (stats s2)\<rparr>)
           | (ApiResp ok r, s2) \<Rightarrow>
               (if ok
                then Inr (True, s2\<lparr>existing_ids := insert (b4_id tx) (existing_ids s2),
                                   stats := increment_transactions (stats s2)\<rparr>)
                else Inr (False, s2\<lparr>stats := increment_errors (stats s2)\<rparr>))))"

fun import_file_records ::
  "env \<Rightarrow> string \<Rightarrow> string option \<Rightarrow> b4_json list \<Rightarrow> B4Transaction list \<times> state
     \<Rightarrow> py_error + (B4Transaction list \<times> state)" where
  \<comment> \<open>the loop over the entries of one file\<close>
  "import_file_records e b4_acc_id acc_id [] st = Inr st"
| "import_file_records e b4_acc_id acc_id (tx_data # remaining) (all_transfers, s) =
     (if json_BookgSts tx_data \<noteq> Some ''BOOK''
      then import_file_records e b4_acc_id acc_id remaining (all_transfers, s)
      else (case from_json tx_data b4_acc_id of
              Inl err \<Rightarrow>
                import_file_records e b4_acc_id acc_id remaining
                  (all_transfers, s\<lparr>stats := increment_errors (stats s)\<rparr>)
            | Inr tx \<Rightarrow>
                (if booking_date tx div usec_per_day < min_booking_day e
                 then import_file_records e b4_acc_id acc_id remaining (all_transfers, s)
                 else if b4_id tx \<in> existing_ids s
                 then import_file_records e b4_acc_id acc_id remaining
                        (all_transfers, s\<lparr>stats := increment_skipped (stats s)\<rparr>)
                 else if is_transfer tx
                 then import_file_records e b4_acc_id acc_id remaining (all_transfers @ [tx], s)
                 else (case import_single_transaction e tx acc_id s of
                         Inl err \<Rightarrow> Inl err
                       | Inr (ok, s') \<Rightarrow>
                           import_file_records e b4_acc_id acc_id remaining (all_transfers, s')))))"

fun import_files ::
  "env \<Rightarrow> (string \<times> b4_json list) list \<Rightarrow> B4Transaction list \<times> state
     \<Rightarrow> py_error + (B4Transaction list \<times> state)" where
  \<comment> \<open>the loop over the export files\<close>
  "import_files e [] st = Inr st"
| "import_files e ((b4_acc_id, transactions_json) # remaining) st =
     (if \<not> has_account e b4_acc_id then import_files e remaining st
      else (case import_file_records e b4_acc_id (get_ezb_account_id e b4_acc_id)
                   transactions_json st of
              Inl err \<Rightarrow> Inl err
            | Inr st' \<Rightarrow> import_files e remaining st'))"

definition import_transactions ::
  "env \<Rightarrow> state \<Rightarrow> py_error + (B4Transaction list \<times> state)" where
  "import_transactions e s = import_files e (json_files e) ([], s)"

subsection \<open>Phase 3: transfers\<close>

definition import_transfer_pair :: "env \<Rightarrow> TransferPair \<Rightarrow> state \<Rightarrow> bool \<times> state" where
  "import_transfer_pair e pair s =
     (let sender_acc_id = get_ezb_account_id e (account_id (sender pair));
          receiver_acc_id = get_ezb_account_id e (account_id (receiver pair))
      in (case api_create_transaction e
                 (create_transaction_payload e sender_acc_id (pair_amount pair) (pair_date pair)
                    (''Transfer: '' @ take 100 (description (sender pair)))
                    (transfer_category_id e) TRANSFER (combined_id pair) receiver_acc_id) s of
            (ApiRaise, s1) \<Rightarrow> (False, s1\<lparr>stats := increment_errors (stats s1)\<rparr>)
          | (ApiResp ok r, s1) \<Rightarrow>
              (if ok
               then (True, s1\<lparr>existing_ids :=
                                 existing_ids s1
                                   \<union> {b4_id (source_tx pair), b4_id (dest_tx pair)},
                               stats := increment_transfers (stats s1)\<rparr>)
               else (False, s1\<lparr>stats := increment_errors (stats s1)\<rparr>))))"

definition import_unmatched_transfer :: "env \<Rightarrow> B4Transaction \<Rightarrow> state \<Rightarrow> bool \<times> state" where
  "import_unmatched_transfer e tx s =
     (let acc_id = get_ezb_account_id e (account_id tx);
          trans_type = transaction_type tx;
          ext_cat_id = get_external_transfer_category e (is_income tx)
      in (case api_create_transaction e
                 (create_transaction_payload e acc_id (amount tx) (booking_date tx)
                    (''[Extern] '' @ description tx) ext_cat_id trans_type (b4_id tx)
                    (Some ''0'')) s of
            (ApiRaise, s1) \<Rightarrow> (False, s1\<lparr>stats := increment_errors (stats s1)\<rparr>)
          | (ApiResp ok r, s1) \<Rightarrow>
              (if ok
               then (True, s1\<lparr>stats := increment_transactions (stats s1)\<rparr>)
               else (False, s1\<lparr>stats := increment_errors (stats s1)\<rparr>))))"

definition import_transfers :: "env \<Rightarrow> B4Transaction list \<Rightarrow> state \<Rightarrow> state" where
  "import_transfers e transfers s =
     (case find_matches (transfer_tolerance_days e) transfers (existing_ids s) of
        (matched_pairs, unmatched) \<Rightarrow>
          fold (\<lambda>tx s'. snd (import_unmatched_transfer e tx s')) unmatched
            (fold (\<lambda>pair s'. snd (import_transfer_pair e pair s')) matched_pairs s))"

subsection \<open>The whole run\<close>

definition run_import :: "env \<Rightarrow> state \<Rightarrow> py_error + (ImportStats \<times> state)" where
  "run_import e s =
     (let s0 = s\<lparr>existing_ids := load_existing_ids e s\<rparr>
      in (case import_transactions e s0 of
            Inl err \<Rightarrow> Inl err
          | Inr (all_transfers, s1) \<Rightarrow>
              (let s2 = import_transfers e all_transfers s1 in Inr (stats s2, s2))))"


section \<open>Auxiliary notions and sample inputs\<close>

definition pair_members :: "TransferPair list \<Rightarrow> B4Transaction list" where
  \<comment> \<open>the records of a list of pairs, source before destination\<close>
  "pair_members ps = concat (map (\<lambda>p. [source_tx p, dest_tx p]) ps)"

definition sample_tx :: "string \<Rightarrow> int \<Rightarrow> real \<Rightarrow> Direction \<Rightarrow> string \<Rightarrow> B4Transaction" where
  \<comment> \<open>a transfer record as the tests of the matcher build it\<close>
  "sample_tx i day amt dir acc =
     \<lparr>b4_id = i, booking_date = datetime_of_day day, amount = amt, description = ''Transfer'',
      direction = dir, category = ''Umbuchung'', booking_status = BOOKED, account_id = acc\<rparr>"

definition sample_record ::
  "string \<Rightarrow> int \<Rightarrow> real \<Rightarrow> string \<Rightarrow> string \<Rightarrow> string \<Rightarrow> string option \<Rightarrow> b4_json" where
  \<comment> \<open>an entry of an export file with all required keys\<close>
  "sample_record i day amt rmt ind cat sts =
     \<lparr>json_Id = Some i, json_BookgDt = Some (Parsed day), json_Amt = Some (Parsed amt),
      json_RmtInf = Some rmt, json_CdtDbtInd = Some ind, json_Category = Some cat,
      json_BookgSts = sts\<rparr>"

definition sample_env :: "(string \<times> b4_json list) list \<Rightarrow> bool \<Rightarrow> env" where
  \<comment> \<open>account \<open>100\<close> is mapped to \<open>acc-1\<close> and \<open>200\<close> to \<open>acc-2\<close>; the minimum date is
      2024-01-01 (day 19723); the ledger answers every creation request alike\<close>
  "sample_env files accepting =
     \<lparr>json_files = files, min_booking_day = 19723, transfer_tolerance_days = 3,
      account_map = [''100'' \<mapsto> ''acc-1'', ''200'' \<mapsto> ''acc-2''],
      transfer_category_id = ''7'', external_income_category = ''8'',
      external_expense_category = ''9'', utc_offset_minutes = 60,
      local_timestamp = (\<lambda>d. d div 1000000),
      create_transaction_api = (\<lambda>n p. ApiResp accepting None),
      create_category_api = (\<lambda>n p. ApiResp accepting (Some (''c'' @ cp_name p))),
      get_all_transactions_raises = False\<rparr>"

definition sample_state :: state where
  \<comment> \<open>an empty ledger and freshly built services\<close>
  "sample_state =
     \<lparr>ledger = [], transaction_calls = 0, category_calls = [], category_map = Map.empty,
      stats = ImportStats_init, existing_ids = {}\<rparr>"

text \<open>Notions used to state the properties of the category service.\<close>

fun creation_ok :: "api_response \<Rightarrow> bool" where
  "creation_ok (ApiResp ok (Some cid)) = ok"
| "creation_ok (ApiResp ok None) = False"
| "creation_ok ApiRaise = False"

definition cat_type_of :: "int \<Rightarrow> int" where
  "cat_type_of trans_type = (if trans_type = 2 then 1 else 2)"

definition category_parts :: "string \<Rightarrow> string list" where
  "category_parts full_path = map py_strip (py_split '':'' full_path)"

definition category_request :: "string \<Rightarrow> int \<Rightarrow> string \<Rightarrow> category_payload" where
  "category_request name cat_type parent =
     \<lparr>cp_name = name, cp_type = cat_type, cp_parentId = parent, cp_icon = ''1'',
      cp_color = ''8e8e93''\<rparr>"






definition ledger_ids :: "state \<Rightarrow> string set" where
  \<comment> \<open>the ids that the markers of the stored transactions yield\<close>
  "ledger_ids s = load_ids_loop (ledger s) {}"

definition record_candidate :: "env \<Rightarrow> string \<Rightarrow> b4_json \<Rightarrow> B4Transaction option" where
  \<comment> \<open>the record of an entry that passes the status check, the parser and the date filter\<close>
  "record_candidate e b4_acc_id data =
     (if json_BookgSts data \<noteq> Some ''BOOK'' then None
      else (case from_json data b4_acc_id of
              Inl err \<Rightarrow> None
            | Inr tx \<Rightarrow>
                if booking_date tx div usec_per_day < min_booking_day e then None else Some tx))"

definition covered :: "env \<Rightarrow> (string \<times> b4_json list) list \<Rightarrow> (B4Transaction \<Rightarrow> bool) \<Rightarrow> bool" where
  \<comment> \<open>\<open>P\<close> holds of every such record in the files of mapped accounts\<close>
  "covered e files P =
     (\<forall>f \<in> set files. has_account e (fst f) \<longrightarrow>
        (\<forall>data \<in> set (snd f). \<forall>tx. record_candidate e (fst f) data = Some tx \<longrightarrow> P tx))"

section \<open>The transfer matcher\<close>

lemma pair_members_simps [simp]:
  "pair_members [] = []"
  "pair_members (ps @ qs) = pair_members ps @ pair_members qs"
  "pair_members [p] = [source_tx p, dest_tx p]"
  by (simp_all add: pair_members_def)


lemma find_partner_Some:
  assumes "find_partner tol tx cs P ex = Some p"
  shows "p \<in> set cs" "b4_id p \<notin> P" "b4_id p \<notin> ex" "is_match tol tx p"
  using assms by (induction cs) (auto split: if_splits)

lemma filter_remove_unique:
  assumes "distinct (map f xs)" "p \<in> set xs" "Q p"
  shows "mset (filter (\<lambda>y. Q y \<and> f y \<noteq> f p) xs) + {#p#} = mset (filter Q xs)"
  using assms
proof (induction xs)
  case Nil
  then show ?case by simp
next
  case (Cons x xs)
  show ?case
  proof (cases "x = p")
    case True
    with Cons.prems have "f p \<notin> f ` set xs" by simp
    then have "\<forall>y\<in>set xs. f y \<noteq> f p" by (metis imageI)
    then have "filter (\<lambda>y. Q y \<and> f y \<noteq> f p) xs = filter Q xs"
      by (intro filter_cong) auto
    with True Cons.prems show ?thesis by simp
  next
    case False
    with Cons.prems have "p \<in> set xs" "f x \<noteq> f p" by force+
    with Cons show ?thesis by auto
  qed
qed

lemma filter_insert_fresh:
  assumes "a \<notin> f ` set xs"
  shows "filter (\<lambda>y. f y \<notin> insert a P \<and> R y) xs = filter (\<lambda>y. f y \<notin> P \<and> R y) xs"
proof (intro filter_cong refl)
  fix y assume "y \<in> set xs"
  with assms have "f y \<noteq> a" by (metis imageI)
  then show "(f y \<notin> insert a P \<and> R y) = (f y \<notin> P \<and> R y)" by simp
qed

lemma loop_mset:
  assumes "distinct (map b4_id xs)"
    and "find_matches_loop tol ex xs (M, U, P) = (M', U', P')"
  shows "mset (pair_members M' @ U') =
         mset (pair_members M @ U) + mset (filter (\<lambda>x. b4_id x \<notin> P \<and> b4_id x \<notin> ex) xs)"
  using assms
proof (induction xs arbitrary: M U P)
  case Nil
  then show ?case by simp
next
  case (Cons x xs)
  from Cons.prems have dxs: "distinct (map b4_id xs)" and fresh: "b4_id x \<notin> b4_id ` set xs"
    by auto
  show ?case
  proof (cases "b4_id x \<in> P \<or> b4_id x \<in> ex")
    case True
    with Cons.prems have "find_matches_loop tol ex xs (M, U, P) = (M', U', P')" by simp
    from Cons.IH [OF dxs this] True show ?thesis by auto
  next
    case False
    show ?thesis
    proof (cases "find_partner tol x xs P ex")
      case None
      with False Cons.prems
      have "find_matches_loop tol ex xs (M, U @ [x], insert (b4_id x) P) = (M', U', P')"
        by simp
      from Cons.IH [OF dxs this]
      have "mset (pair_members M' @ U') =
            mset (pair_members M @ U @ [x]) +
            mset (filter (\<lambda>y. b4_id y \<notin> insert (b4_id x) P \<and> b4_id y \<notin> ex) xs)"
        by simp
      then have "mset (pair_members M' @ U') =
            mset (pair_members M @ U @ [x]) +
            mset (filter (\<lambda>y. b4_id y \<notin> P \<and> b4_id y \<notin> ex) xs)"
        unfolding filter_insert_fresh [OF fresh, of P "\<lambda>y. b4_id y \<notin> ex"] .
      then show ?thesis using False by simp
    next
      case (Some p)
      note fp = find_partner_Some [OF Some]
      from Some False Cons.prems
      have "find_matches_loop tol ex xs
              (M @ [\<lparr>source_tx = x, dest_tx = p\<rparr>], U, P \<union> {b4_id x, b4_id p}) = (M', U', P')"
        by simp
      from Cons.IH [OF dxs this]
      have eq: "mset (pair_members M' @ U') =
                mset (pair_members M @ [x, p] @ U) +
                mset (filter (\<lambda>y. b4_id y \<notin> P \<union> {b4_id x, b4_id p} \<and> b4_id y \<notin> ex) xs)"
        by simp
      have "filter (\<lambda>y. b4_id y \<notin> P \<union> {b4_id x, b4_id p} \<and> b4_id y \<notin> ex) xs =
            filter (\<lambda>y. (b4_id y \<notin> P \<and> b4_id y \<notin> ex) \<and> b4_id y \<noteq> b4_id p) xs"
      proof (intro filter_cong refl)
        fix y assume "y \<in> set xs"
        with fresh have "b4_id y \<noteq> b4_id x" by (metis imageI)
        then show "(b4_id y \<notin> P \<union> {b4_id x, b4_id p} \<and> b4_id y \<notin> ex) =
                   ((b4_id y \<notin> P \<and> b4_id y \<notin> ex) \<and> b4_id y \<noteq> b4_id p)"
          by auto
      qed
      moreover have "mset (filter (\<lambda>y. (b4_id y \<notin> P \<and> b4_id y \<notin> ex) \<and> b4_id y \<noteq> b4_id p) xs) + {#p#}
            = mset (filter (\<lambda>y. b4_id y \<notin> P \<and> b4_id y \<notin> ex) xs)"
        using filter_remove_unique [OF dxs fp(1), of "\<lambda>y. b4_id y \<notin> P \<and> b4_id y \<notin> ex"] fp by simp
      ultimately show ?thesis using eq False by (simp add: ac_simps)
    qed
  qed
qed

lemma loop_order:
  assumes "find_matches_loop tol ex xs (M, U, P) = (M', U', P')" "pr \<in> set M'"
  shows "pr \<in> set M \<or> (\<exists>i j. i < j \<and> j < length xs \<and> xs ! i = source_tx pr \<and> xs ! j = dest_tx pr)"
  using assms
proof (induction xs arbitrary: M U P)
  case Nil
  then show ?case by simp
next
  case (Cons x xs)
  have shift: "\<exists>i j. i < j \<and> j < length (x # xs) \<and> (x # xs) ! i = a \<and> (x # xs) ! j = b"
    if "\<exists>i j. i < j \<and> j < length xs \<and> xs ! i = a \<and> xs ! j = b" for a b
  proof -
    from that obtain i j where "i < j" "j < length xs" "xs ! i = a" "xs ! j = b" by blast
    then have "Suc i < Suc j \<and> Suc j < length (x # xs) \<and> (x # xs) ! Suc i = a \<and> (x # xs) ! Suc j = b"
      by simp
    then show ?thesis by blast
  qed
  show ?case
  proof (cases "b4_id x \<in> P \<or> b4_id x \<in> ex")
    case True
    with Cons.prems have "find_matches_loop tol ex xs (M, U, P) = (M', U', P')" by simp
    from Cons.IH [OF this Cons.prems(2)] shift show ?thesis by blast
  next
    case False
    show ?thesis
    proof (cases "find_partner tol x xs P ex")
      case None
      with False Cons.prems
      have "find_matches_loop tol ex xs (M, U @ [x], insert (b4_id x) P) = (M', U', P')"
        by simp
      from Cons.IH [OF this Cons.prems(2)] shift show ?thesis by blast
    next
      case (Some p)
      note fp = find_partner_Some [OF Some]
      from Some False Cons.prems
      have "find_matches_loop tol ex xs
              (M @ [\<lparr>source_tx = x, dest_tx = p\<rparr>], U, P \<union> {b4_id x, b4_id p}) = (M', U', P')"
        by simp
      from Cons.IH [OF this Cons.prems(2)]
      consider "pr \<in> set M" | "pr = \<lparr>source_tx = x, dest_tx = p\<rparr>"
        | "\<exists>i j. i < j \<and> j < length xs \<and> xs ! i = source_tx pr \<and> xs ! j = dest_tx pr"
        by auto
      then show ?thesis
      proof cases
        case 1 then show ?thesis by simp
      next
        case 2
        from fp(1) obtain k where "k < length xs" "xs ! k = p" by (auto simp: in_set_conv_nth)
        then have "0 < Suc k \<and> Suc k < length (x # xs) \<and> (x # xs) ! 0 = source_tx pr
                   \<and> (x # xs) ! Suc k = dest_tx pr"
          using 2 by simp
        then show ?thesis by blast
      next
        case 3 with shift show ?thesis by blast
      qed
    qed
  qed
qed

lemma loop_sound:
  assumes "find_matches_loop tol ex xs (M, U, P) = (M', U', P')" "pr \<in> set M'"
  shows "pr \<in> set M \<or> (is_match tol (source_tx pr) (dest_tx pr)
           \<and> b4_id (source_tx pr) \<notin> ex \<and> b4_id (dest_tx pr) \<notin> ex)"
  using assms
proof (induction xs arbitrary: M U P)
  case Nil
  then show ?case by simp
next
  case (Cons x xs)
  show ?case
  proof (cases "b4_id x \<in> P \<or> b4_id x \<in> ex")
    case True
    with Cons.prems have "find_matches_loop tol ex xs (M, U, P) = (M', U', P')" by simp
    from Cons.IH [OF this Cons.prems(2)] show ?thesis .
  next
    case False
    show ?thesis
    proof (cases "find_partner tol x xs P ex")
      case None
      with False Cons.prems
      have "find_matches_loop tol ex xs (M, U @ [x], insert (b4_id x) P) = (M', U', P')"
        by simp
      from Cons.IH [OF this Cons.prems(2)] show ?thesis .
    next
      case (Some p)
      note fp = find_partner_Some [OF Some]
      from Some False Cons.prems
      have "find_matches_loop tol ex xs
              (M @ [\<lparr>source_tx = x, dest_tx = p\<rparr>], U, P \<union> {b4_id x, b4_id p}) = (M', U', P')"
        by simp
      from Cons.IH [OF this Cons.prems(2)] fp False show ?thesis by auto
    qed
  qed
qed


lemma timedelta_days_of_days:
  "timedelta_days (datetime_of_day d1 - datetime_of_day d2) = d1 - d2"
proof -
  have "d1 * usec_per_day - d2 * usec_per_day = (d1 - d2) * usec_per_day"
    by (simp add: algebra_simps)
  then show ?thesis
    by (simp add: timedelta_days_def datetime_of_day_def usec_per_day_def)
qed

lemma is_match_days:
  assumes "booking_date a = datetime_of_day da" "booking_date b = datetime_of_day db"
  shows "is_match tol a b \<longleftrightarrow>
         amount a = amount b \<and> account_id a \<noteq> account_id b \<and> direction a \<noteq> direction b
         \<and> \<bar>da - db\<bar> \<le> tol"
  using assms by (simp add: is_match_def timedelta_days_of_days)

lemma find_matches_two:
  assumes "b4_id a \<noteq> b4_id b" "b4_id a \<notin> ex" "b4_id b \<notin> ex"
  shows "find_matches tol [a, b] ex =
         (if is_match tol a b then ([\<lparr>source_tx = a, dest_tx = b\<rparr>], []) else ([], [a, b]))"
  using assms by (simp add: find_matches_def)

lemma find_matches_sound:
  assumes "pr \<in> set (fst (find_matches tol xs ex))"
  shows "is_match tol (source_tx pr) (dest_tx pr)"
    and "b4_id (source_tx pr) \<notin> ex" and "b4_id (dest_tx pr) \<notin> ex"
proof -
  obtain M U P where l: "find_matches_loop tol ex xs ([], [], {}) = (M, U, P)"
    by (metis prod_cases3)
  with assms have "pr \<in> set M" by (simp add: find_matches_def)
  from loop_sound [OF l this]
  show "is_match tol (source_tx pr) (dest_tx pr)"
    and "b4_id (source_tx pr) \<notin> ex" and "b4_id (dest_tx pr) \<notin> ex"
    by simp_all
qed



lemma find_matches_mset:
  assumes "distinct (map b4_id xs)"
  shows "mset (pair_members (fst (find_matches tol xs ex)) @ snd (find_matches tol xs ex)) =
         mset (filter (\<lambda>tx. b4_id tx \<notin> ex) xs)"
proof -
  obtain M U P where l: "find_matches_loop tol ex xs ([], [], {}) = (M, U, P)"
    by (metis prod_cases3)
  from loop_mset [OF assms l] l show ?thesis by (simp add: find_matches_def)
qed

lemma find_matches_order:
  assumes "pr \<in> set (fst (find_matches tol xs ex))"
  shows "\<exists>i j. i < j \<and> j < length xs \<and> xs ! i = source_tx pr \<and> xs ! j = dest_tx pr"
proof -
  obtain M U P where l: "find_matches_loop tol ex xs ([], [], {}) = (M, U, P)"
    by (metis prod_cases3)
  with assms have "pr \<in> set M" by (simp add: find_matches_def)
  from loop_order [OF l this] show ?thesis by simp
qed

text \<open>
  Claim C2. Two candidate records (distinct ids, neither already imported, booked on
  whole days as \<open>from_json\<close> produces them) are paired by \<open>find_matches\<close> exactly when
  their amounts are equal, their accounts differ, their directions are opposite and their
  days are at most \<open>tolerance_days\<close> apart, the bound included; then the result is that
  one pair and nothing unmatched, and otherwise no pair and both records unmatched. For
  any list of candidates, every returned pair satisfies the four conditions, the distance
  being the \<open>days\<close> of the difference of the two booking dates.
\<close>

theorem C2_match_predicate:
  assumes "b4_id a \<noteq> b4_id b" and "b4_id a \<notin> ex" and "b4_id b \<notin> ex"
    and "booking_date a = datetime_of_day da" and "booking_date b = datetime_of_day db"
  shows "find_matches tol [a, b] ex =
           (if amount a = amount b \<and> account_id a \<noteq> account_id b
               \<and> direction a \<noteq> direction b \<and> \<bar>da - db\<bar> \<le> tol
            then ([\<lparr>source_tx = a, dest_tx = b\<rparr>], [])
            else ([], [a, b]))
         \<and> (\<forall>pr \<in> set (fst (find_matches tol transfers ex')).
               amount (source_tx pr) = amount (dest_tx pr)
               \<and> account_id (source_tx pr) \<noteq> account_id (dest_tx pr)
               \<and> direction (source_tx pr) \<noteq> direction (dest_tx pr)
               \<and> \<bar>timedelta_days (booking_date (source_tx pr) - booking_date (dest_tx pr))\<bar>
                   \<le> tol)"
proof
  show "find_matches tol [a, b] ex =
           (if amount a = amount b \<and> account_id a \<noteq> account_id b
               \<and> direction a \<noteq> direction b \<and> \<bar>da - db\<bar> \<le> tol
            then ([\<lparr>source_tx = a, dest_tx = b\<rparr>], [])
            else ([], [a, b]))"
    using find_matches_two [OF assms(1-3)] is_match_days [OF assms(4,5)] by simp
  show "\<forall>pr \<in> set (fst (find_matches tol transfers ex')).
               amount (source_tx pr) = amount (dest_tx pr)
               \<and> account_id (source_tx pr) \<noteq> account_id (dest_tx pr)
               \<and> direction (source_tx pr) \<noteq> direction (dest_tx pr)
               \<and> \<bar>timedelta_days (booking_date (source_tx pr) - booking_date (dest_tx pr))\<bar>
                   \<le> tol"
    using find_matches_sound(1) [of _ tol transfers ex'] by (simp add: is_match_def)
qed

text \<open>
  Witness for C2: two opposite records three days apart are paired with tolerance 3; four
  days apart they are both unmatched.
\<close>

theorem C2_match_predicate_witness:
  "find_matches 3 [sample_tx ''1'' 19737 100 DEBIT ''ACC001'',
                   sample_tx ''2'' 19740 100 CREDIT ''ACC002''] {} =
     ([\<lparr>source_tx = sample_tx ''1'' 19737 100 DEBIT ''ACC001'',
        dest_tx = sample_tx ''2'' 19740 100 CREDIT ''ACC002''\<rparr>], [])
   \<and> find_matches 3 [sample_tx ''1'' 19737 100 DEBIT ''ACC001'',
                     sample_tx ''3'' 19741 100 CREDIT ''ACC003''] {} =
     ([], [sample_tx ''1'' 19737 100 DEBIT ''ACC001'',
           sample_tx ''3'' 19741 100 CREDIT ''ACC003''])"
proof -
  let ?a = "sample_tx ''1'' 19737 100 DEBIT ''ACC001''"
  let ?b = "sample_tx ''2'' 19740 100 CREDIT ''ACC002''"
  let ?c = "sample_tx ''3'' 19741 100 CREDIT ''ACC003''"
  have ids: "b4_id ?a \<noteq> b4_id ?b" "b4_id ?a \<noteq> b4_id ?c"
    "b4_id ?a \<notin> {}" "b4_id ?b \<notin> {}" "b4_id ?c \<notin> {}"
    by (simp_all add: sample_tx_def)
  have days: "booking_date ?a = datetime_of_day 19737" "booking_date ?b = datetime_of_day 19740"
    "booking_date ?c = datetime_of_day 19741"
    by (simp_all add: sample_tx_def)
  from C2_match_predicate [OF ids(1,3,4) days(1,2), where tol = 3 and transfers = "[]" and ex' = "{}"]
  have 1: "find_matches 3 [?a, ?b] {} = ([\<lparr>source_tx = ?a, dest_tx = ?b\<rparr>], [])"
    by (simp add: sample_tx_def)
  from C2_match_predicate [OF ids(2,3,5) days(1,3), where tol = 3 and transfers = "[]" and ex' = "{}"]
  have 2: "find_matches 3 [?a, ?c] {} = ([], [?a, ?c])"
    by (simp add: sample_tx_def)
  from 1 2 show ?thesis by (rule conjI)
qed



text \<open>
  Claim C10. For candidates with pairwise distinct ids, the records of the returned pairs
  together with the unmatched records are, each exactly once, the input records whose id
  is not in \<open>existing_ids\<close>: no record is in two pairs or both in a pair and unmatched,
  and no record with an existing id is returned. Every pair is made of two input records,
  the source at a smaller index than the destination.
\<close>

theorem C10_matcher_partition:
  assumes "distinct (map b4_id transfers)"
  shows "(case find_matches tol transfers ex of
            (pairs, unmatched) \<Rightarrow>
              mset (pair_members pairs @ unmatched) = mset (filter (\<lambda>tx. b4_id tx \<notin> ex) transfers)
              \<and> distinct (pair_members pairs @ unmatched)
              \<and> (\<forall>tx \<in> set (pair_members pairs @ unmatched). tx \<in> set transfers \<and> b4_id tx \<notin> ex)
              \<and> (\<forall>pr \<in> set pairs. \<exists>i j. i < j \<and> j < length transfers
                     \<and> transfers ! i = source_tx pr \<and> transfers ! j = dest_tx pr))"
proof -
  obtain pairs unmatched where fm: "find_matches tol transfers ex = (pairs, unmatched)"
    by (cases "find_matches tol transfers ex")
  from find_matches_mset [OF assms, of tol ex] fm
  have m: "mset (pair_members pairs @ unmatched) = mset (filter (\<lambda>tx. b4_id tx \<notin> ex) transfers)"
    by simp
  from assms have "distinct transfers" by (rule distinct_map [THEN iffD1, THEN conjunct1])
  then have "distinct (filter (\<lambda>tx. b4_id tx \<notin> ex) transfers)" by simp
  with m have d: "distinct (pair_members pairs @ unmatched)"
    by (metis mset_eq_imp_distinct_iff)
  from m have "set (pair_members pairs @ unmatched) = set (filter (\<lambda>tx. b4_id tx \<notin> ex) transfers)"
    by (rule mset_eq_setD)
  then have s: "\<forall>tx \<in> set (pair_members pairs @ unmatched). tx \<in> set transfers \<and> b4_id tx \<notin> ex"
    by simp
  have o: "\<forall>pr \<in> set pairs. \<exists>i j. i < j \<and> j < length transfers
                     \<and> transfers ! i = source_tx pr \<and> transfers ! j = dest_tx pr"
    using find_matches_order [of _ tol transfers ex] fm by simp
  from m d s o show ?thesis unfolding fm by simp
qed


text \<open>
  Witness for C10: the three records of the matcher's test, the second one already
  imported.
\<close>

theorem C10_matcher_partition_witness:
  "distinct (map b4_id [sample_tx ''1'' 19737 100 DEBIT ''ACC001'',
                        sample_tx ''2'' 19737 100 CREDIT ''ACC002'',
                        sample_tx ''3'' 19742 50 DEBIT ''ACC001''])
   \<and> mset (pair_members (fst (find_matches 3 [sample_tx ''1'' 19737 100 DEBIT ''ACC001'',
                        sample_tx ''2'' 19737 100 CREDIT ''ACC002'',
                        sample_tx ''3'' 19742 50 DEBIT ''ACC001''] {''2''}))
           @ snd (find_matches 3 [sample_tx ''1'' 19737 100 DEBIT ''ACC001'',
                        sample_tx ''2'' 19737 100 CREDIT ''ACC002'',
                        sample_tx ''3'' 19742 50 DEBIT ''ACC001''] {''2''}))
     = mset (filter (\<lambda>tx. b4_id tx \<notin> {''2''}) [sample_tx ''1'' 19737 100 DEBIT ''ACC001'',
                        sample_tx ''2'' 19737 100 CREDIT ''ACC002'',
                        sample_tx ''3'' 19742 50 DEBIT ''ACC001''])"
proof -
  let ?xs = "[sample_tx ''1'' 19737 100 DEBIT ''ACC001'',
              sample_tx ''2'' 19737 100 CREDIT ''ACC002'',
              sample_tx ''3'' 19742 50 DEBIT ''ACC001'']"
  have d: "distinct (map b4_id ?xs)"
    by (simp add: sample_tx_def)
  from C10_matcher_partition [OF d, where tol = 3 and ex = "{''2''}"]
  have "mset (pair_members (fst (find_matches 3 ?xs {''2''})) @ snd (find_matches 3 ?xs {''2''}))
        = mset (filter (\<lambda>tx. b4_id tx \<notin> {''2''}) ?xs)"
    by (simp only: case_prod_unfold)
  with d show ?thesis by (rule conjI)
qed

section \<open>Amounts\<close>






section \<open>Paths of the import\<close>

lemma import_unmatched_existing_ids:
  "existing_ids (snd (import_unmatched_transfer e tx s)) = existing_ids s"
  by (simp add: import_unmatched_transfer_def api_create_transaction_def Let_def
        split: api_response.splits)

text \<open>
  Claim C5 at concrete inputs, every request accepted: importing a single transaction
  adds its id to the existing ids, importing a pair adds both ids, and importing an
  unmatched transfer stores the transaction in the ledger and counts it but does not add
  its id.
\<close>

theorem C5_unmatched_transfer_id_not_recorded:
  "(case import_single_transaction (sample_env [] True)
           ((sample_tx ''1'' 19737 100 DEBIT ''100'')\<lparr>category := ''Food''\<rparr>)
           (Some ''acc-1'') sample_state of
      Inl err \<Rightarrow> False
    | Inr (ok, s) \<Rightarrow> ok \<and> new_transactions (stats s) = 1 \<and> ''1'' \<in> existing_ids s)
   \<and> (case import_transfer_pair (sample_env [] True)
              \<lparr>source_tx = sample_tx ''1'' 19737 100 DEBIT ''100'',
               dest_tx = sample_tx ''2'' 19737 100 CREDIT ''200''\<rparr> sample_state of
         (ok, s) \<Rightarrow> ok \<and> new_transfers (stats s) = 1
                     \<and> ''1'' \<in> existing_ids s \<and> ''2'' \<in> existing_ids s)
   \<and> (case import_unmatched_transfer (sample_env [] True)
              (sample_tx ''3'' 19737 100 DEBIT ''100'') sample_state of
         (ok, s) \<Rightarrow> ok \<and> new_transactions (stats s) = 1
                     \<and> map ezb_comment (ledger s) = [Some ''[Extern] Transfer [B4ID:3]'']
                     \<and> ''3'' \<notin> existing_ids s)"
  by code_simp

text \<open>
  Claim C6 at a concrete input: an entry without \<open>BookgSts\<close> parses to a booked record,
  yet the run skips it: nothing is sent, nothing is counted. The same entry with
  \<open>BookgSts = BOOK\<close> is imported.
\<close>

theorem C6_record_without_status_is_skipped:
  "(case from_json (sample_record ''t1'' 19754 50 ''pay'' ''CRDT'' ''Salary'' None) ''100'' of
      Inl err \<Rightarrow> False
    | Inr tx \<Rightarrow> is_booked tx)
   \<and> (case run_import
              (sample_env [(''100'', [sample_record ''t1'' 19754 50 ''pay'' ''CRDT'' ''Salary'' None])]
                 True) sample_state of
         Inl err \<Rightarrow> False
       | Inr (st, s) \<Rightarrow> st = ImportStats_init \<and> ledger s = [] \<and> transaction_calls s = 0)
   \<and> (case run_import
              (sample_env [(''100'', [sample_record ''t1'' 19754 50 ''pay'' ''CRDT'' ''Salary''
                                        (Some ''BOOK'')])]
                 True) sample_state of
         Inl err \<Rightarrow> False
       | Inr (st, s) \<Rightarrow> new_transactions st = 1
                          \<and> map ezb_comment (ledger s) = [Some ''pay [B4ID:t1]''])"
  by code_simp

section \<open>The category service\<close>

lemma py_split_nonempty: "py_split sep s \<noteq> []"
  by (subst py_split.simps) (simp split: option.splits prod.splits)

lemma category_parts_nonempty: "category_parts p \<noteq> []"
  by (simp add: category_parts_def py_split_nonempty)

lemma cmc_present:
  "category_map s key \<noteq> None \<Longrightarrow> create_missing_category e key p s = (True, s)"
  by (auto simp: create_missing_category_def)

lemma cmc_absent:
  assumes "category_map s key = None"
  shows "create_missing_category e key p s =
     (let r = create_category_api e (length (category_calls s)) p;
          s1 = s\<lparr>category_calls := category_calls s @ [(p, r)]\<rparr>
      in case r of
           ApiResp True (Some cid) \<Rightarrow>
             (True, s1\<lparr>category_map := (category_map s1)(key \<mapsto> cid),
                        stats := increment_categories (stats s1)\<rparr>)
         | _ \<Rightarrow> (False, s1))"
  using assms
  by (auto simp: create_missing_category_def api_create_category_def Let_def
      split: api_response.splits option.splits bool.splits)

lemma cmc_True_present:
  assumes "create_missing_category e key p s = (True, s')"
  shows "category_map s' key \<noteq> None"
proof (cases "category_map s key = None")
  case False
  with assms show ?thesis by (simp add: cmc_present)
next
  case True
  from assms show ?thesis
    unfolding cmc_absent [OF True]
    by (auto simp: Let_def split: api_response.splits option.splits bool.splits)
qed

lemma cmc_fails:
  assumes "category_map s key = None"
    and "\<not> creation_ok (create_category_api e (length (category_calls s)) p)"
  shows "create_missing_category e key p s =
     (False, s\<lparr>category_calls := category_calls s
                  @ [(p, create_category_api e (length (category_calls s)) p)]\<rparr>)"
  using assms
  by (auto simp: create_missing_category_def api_create_category_def Let_def
      split: api_response.splits option.splits)

lemma cmc_succeeds:
  assumes "category_map s key = None"
    and "create_category_api e (length (category_calls s)) p = ApiResp True (Some cid)"
  shows "create_missing_category e key p s =
     (True, s\<lparr>category_calls := category_calls s @ [(p, ApiResp True (Some cid))],
              category_map := (category_map s)(key \<mapsto> cid),
              stats := increment_categories (stats s)\<rparr>)"
  using assms
  by (simp add: create_missing_category_def api_create_category_def Let_def)

lemma ensure_unfold:
  assumes "full_path \<noteq> []" "full_path \<noteq> ''Umbuchung''"
    and "category_parts full_path = main_name # more_parts"
  shows "ensure_category_hierarchy e full_path trans_type s =
     (case create_missing_category e (cat_type_of trans_type, main_name)
             (category_request main_name (cat_type_of trans_type) ''0'') s of
        (False, s1) \<Rightarrow> (Inr ''0'', s1)
      | (True, s1) \<Rightarrow>
          (case category_map s1 (cat_type_of trans_type, main_name) of
             None \<Rightarrow> (Inl KeyError, s1)
           | Some parent_id \<Rightarrow>
               (case more_parts of
                  [] \<Rightarrow> (Inr parent_id, s1)
                | sub_name # ignored \<Rightarrow>
                    (case create_missing_category e
                            (cat_type_of trans_type, main_name @ '':'' @ sub_name)
                            (category_request sub_name (cat_type_of trans_type) parent_id) s1 of
                       (False, s2) \<Rightarrow> (Inr parent_id, s2)
                     | (True, s2) \<Rightarrow>
                         (case category_map s2
                                 (cat_type_of trans_type, main_name @ '':'' @ sub_name) of
                            None \<Rightarrow> (Inl KeyError, s2)
                          | Some cid \<Rightarrow> (Inr cid, s2))))))"
  using assms
  unfolding ensure_category_hierarchy_def category_parts_def cat_type_of_def
    category_request_def Let_def
  by simp

lemma ensure_returns: "\<exists>cid. fst (ensure_category_hierarchy e full_path trans_type s) = Inr cid"
proof (cases "full_path = [] \<or> full_path = ''Umbuchung''")
  case True
  then show ?thesis by (auto simp: ensure_category_hierarchy_def)
next
  case False
  obtain main_name more_parts where parts: "category_parts full_path = main_name # more_parts"
    using category_parts_nonempty [of full_path] by (cases "category_parts full_path") auto
  from False have ne: "full_path \<noteq> []" "full_path \<noteq> ''Umbuchung''" by auto
  show ?thesis
    unfolding ensure_unfold [OF ne parts]
    by (auto split: prod.splits bool.splits option.splits list.splits
        dest: cmc_True_present)
qed


lemma cmc_effect:
  assumes "create_missing_category e key p s = (b, s')"
  shows "\<exists>new. category_calls s' = category_calls s @ new \<and> length new \<le> 1
           \<and> (b \<longleftrightarrow> (\<forall>c \<in> set new. creation_ok (snd c)))
           \<and> new_categories (stats s') =
               new_categories (stats s) + int (length (filter (\<lambda>c. creation_ok (snd c)) new))
           \<and> (b \<longrightarrow> category_map s' key \<noteq> None)
           \<and> category_map s \<subseteq>\<^sub>m category_map s'"
proof (cases "category_map s key = None")
  case False
  with assms have "b" "s' = s" by (simp_all add: cmc_present)
  with False show ?thesis by (intro exI [of _ "[]"]) simp
next
  case True
  let ?r = "create_category_api e (length (category_calls s)) p"
  from True have fresh: "category_map s \<subseteq>\<^sub>m (category_map s)(key \<mapsto> cid)" for cid
    by (auto simp: map_le_def)
  from assms show ?thesis
    unfolding cmc_absent [OF True] Let_def
    by (intro exI [of _ "[(p, ?r)]"])
       (auto simp: increment_categories_def fresh
          split: api_response.splits option.splits bool.splits)
qed

lemma ensure_effect:
  "case ensure_category_hierarchy e full_path trans_type s of
     (r1, s1) \<Rightarrow>
       (\<exists>new. category_calls s1 = category_calls s @ new \<and> length new \<le> 2
          \<and> new_categories (stats s1) =
              new_categories (stats s) + int (length (filter (\<lambda>c. creation_ok (snd c)) new))
          \<and> ((\<forall>c \<in> set new. creation_ok (snd c))
               \<longrightarrow> ensure_category_hierarchy e full_path trans_type s1 = (r1, s1)))"
proof (cases "full_path = [] \<or> full_path = ''Umbuchung''")
  case True
  then have "ensure_category_hierarchy e full_path trans_type s' = (Inr ''0'', s')" for s'
    by (auto simp: ensure_category_hierarchy_def)
  then show ?thesis by (auto intro!: exI [of _ "[]"])
next
  case False
  then have ne: "full_path \<noteq> []" "full_path \<noteq> ''Umbuchung''" by auto
  obtain main_name more_parts where parts: "category_parts full_path = main_name # more_parts"
    using category_parts_nonempty [of full_path] by (cases "category_parts full_path") auto
  let ?ct = "cat_type_of trans_type"
  let ?k1 = "(?ct, main_name)"
  let ?p1 = "category_request main_name ?ct ''0''"
  note unf = ensure_unfold [OF ne parts]
  obtain b1 s1 where c1: "create_missing_category e ?k1 ?p1 s = (b1, s1)"
    by (cases "create_missing_category e ?k1 ?p1 s")
  from cmc_effect [OF c1] obtain new1 where
    n1: "category_calls s1 = category_calls s @ new1" "length new1 \<le> 1"
      "b1 \<longleftrightarrow> (\<forall>c \<in> set new1. creation_ok (snd c))"
      "new_categories (stats s1) =
         new_categories (stats s) + int (length (filter (\<lambda>c. creation_ok (snd c)) new1))"
      "b1 \<longrightarrow> category_map s1 ?k1 \<noteq> None" "category_map s \<subseteq>\<^sub>m category_map s1"
    by blast
  show ?thesis
  proof (cases b1)
    case False
    with c1 have res: "ensure_category_hierarchy e full_path trans_type s = (Inr ''0'', s1)"
      by (simp add: unf)
    from False n1 show ?thesis
      unfolding res by (intro case_prodI exI [of _ new1]) auto
  next
    case True
    with n1 obtain pid where pid: "category_map s1 ?k1 = Some pid" by auto
    then have again1: "create_missing_category e ?k1 ?p1 s1 = (True, s1)"
      by (simp add: cmc_present)
    show ?thesis
    proof (cases more_parts)
      case Nil
      with True c1 pid
      have res: "ensure_category_hierarchy e full_path trans_type s = (Inr pid, s1)"
        by (simp add: unf)
      from Nil again1 pid
      have "ensure_category_hierarchy e full_path trans_type s1 = (Inr pid, s1)"
        by (simp add: ensure_unfold [OF ne parts])
      with n1 show ?thesis
        unfolding res by (intro case_prodI exI [of _ new1]) auto
    next
      case (Cons sub_name ignored)
      let ?k2 = "(?ct, main_name @ '':'' @ sub_name)"
      let ?p2 = "category_request sub_name ?ct pid"
      obtain b2 s2 where c2: "create_missing_category e ?k2 ?p2 s1 = (b2, s2)"
        by (cases "create_missing_category e ?k2 ?p2 s1")
      from cmc_effect [OF c2] obtain new2 where
        n2: "category_calls s2 = category_calls s1 @ new2" "length new2 \<le> 1"
          "b2 \<longleftrightarrow> (\<forall>c \<in> set new2. creation_ok (snd c))"
          "new_categories (stats s2) =
             new_categories (stats s1) + int (length (filter (\<lambda>c. creation_ok (snd c)) new2))"
          "b2 \<longrightarrow> category_map s2 ?k2 \<noteq> None" "category_map s1 \<subseteq>\<^sub>m category_map s2"
        by blast
      from n1 n2 have calls: "category_calls s2 = category_calls s @ (new1 @ new2)"
        and len: "length (new1 @ new2) \<le> 2"
        and cnt: "new_categories (stats s2) =
          new_categories (stats s)
            + int (length (filter (\<lambda>c. creation_ok (snd c)) (new1 @ new2)))"
        by simp_all
      from pid n2(6) have pid2: "category_map s2 ?k1 = Some pid"
        by (metis domI map_le_def)
      then have again1': "create_missing_category e ?k1 ?p1 s2 = (True, s2)"
        by (simp add: cmc_present)
      show ?thesis
      proof (cases b2)
        case False
        with True c1 c2 pid Cons
        have res: "ensure_category_hierarchy e full_path trans_type s = (Inr pid, s2)"
          by (simp add: unf)
        from False n2(3) have "\<not> (\<forall>c \<in> set (new1 @ new2). creation_ok (snd c))" by auto
        with calls len cnt show ?thesis
          unfolding res by (intro case_prodI exI [of _ "new1 @ new2"]) auto
      next
        case b2: True
        with n2 obtain cid where cid: "category_map s2 ?k2 = Some cid" by auto
        then have again2: "create_missing_category e ?k2 ?p2 s2 = (True, s2)"
          by (simp add: cmc_present)
        from True b2 c1 c2 pid cid Cons
        have res: "ensure_category_hierarchy e full_path trans_type s = (Inr cid, s2)"
          by (simp add: unf)
        from Cons again1' again2 pid2 cid
        have "ensure_category_hierarchy e full_path trans_type s2 = (Inr cid, s2)"
          by (simp add: ensure_unfold [OF ne parts])
        with calls len cnt show ?thesis
          unfolding res by (intro case_prodI exI [of _ "new1 @ new2"]) auto
      qed
    qed
  qed
qed


text \<open>
  Claim C7. \<open>ensure_category_hierarchy\<close> always returns a category id and never raises.
  (1) For the empty path and for the path \<open>Umbuchung\<close> it returns \<open>"0"\<close> and leaves the
  state as it is, so no request is sent. (2) When the top-level category is missing and
  its creation fails (the request raises, is answered without success, or without an id),
  the result is \<open>"0"\<close>. (3) When the top-level category exists, or is created, and the
  missing sub-category cannot be created, the result is the id of the top-level category.
\<close>

theorem C7_graceful_degradation:
  "(\<exists>cid. fst (ensure_category_hierarchy e full_path trans_type s) = Inr cid)
   \<and> (full_path = [] \<or> full_path = ''Umbuchung''
        \<longrightarrow> ensure_category_hierarchy e full_path trans_type s = (Inr ''0'', s))
   \<and> (full_path \<noteq> [] \<and> full_path \<noteq> ''Umbuchung''
        \<and> category_parts full_path = main_name # more_parts
        \<and> category_map s (cat_type_of trans_type, main_name) = None
        \<and> \<not> creation_ok (create_category_api e (length (category_calls s))
                            (category_request main_name (cat_type_of trans_type) ''0''))
        \<longrightarrow> fst (ensure_category_hierarchy e full_path trans_type s) = Inr ''0'')
   \<and> (full_path \<noteq> [] \<and> full_path \<noteq> ''Umbuchung''
        \<and> category_parts full_path = main_name # sub_name # ignored
        \<and> category_map s (cat_type_of trans_type, main_name) = Some parent_id
        \<and> category_map s (cat_type_of trans_type, main_name @ '':'' @ sub_name) = None
        \<and> \<not> creation_ok (create_category_api e (length (category_calls s))
                            (category_request sub_name (cat_type_of trans_type) parent_id))
        \<longrightarrow> fst (ensure_category_hierarchy e full_path trans_type s) = Inr parent_id)
   \<and> (full_path \<noteq> [] \<and> full_path \<noteq> ''Umbuchung''
        \<and> category_parts full_path = main_name # sub_name # ignored
        \<and> category_map s (cat_type_of trans_type, main_name) = None
        \<and> create_category_api e (length (category_calls s))
              (category_request main_name (cat_type_of trans_type) ''0'')
            = ApiResp True (Some parent_id)
        \<and> category_map s (cat_type_of trans_type, main_name @ '':'' @ sub_name) = None
        \<and> \<not> creation_ok (create_category_api e (Suc (length (category_calls s)))
                            (category_request sub_name (cat_type_of trans_type) parent_id))
        \<longrightarrow> fst (ensure_category_hierarchy e full_path trans_type s) = Inr parent_id)"
proof (intro conjI impI)
  show "\<exists>cid. fst (ensure_category_hierarchy e full_path trans_type s) = Inr cid"
    by (rule ensure_returns)
next
  assume "full_path = [] \<or> full_path = ''Umbuchung''"
  then show "ensure_category_hierarchy e full_path trans_type s = (Inr ''0'', s)"
    by (auto simp: ensure_category_hierarchy_def)
next
  assume a: "full_path \<noteq> [] \<and> full_path \<noteq> ''Umbuchung''
        \<and> category_parts full_path = main_name # more_parts
        \<and> category_map s (cat_type_of trans_type, main_name) = None
        \<and> \<not> creation_ok (create_category_api e (length (category_calls s))
                            (category_request main_name (cat_type_of trans_type) ''0''))"
  then have ne: "full_path \<noteq> []" "full_path \<noteq> ''Umbuchung''"
    and parts: "category_parts full_path = main_name # more_parts"
    and miss: "category_map s (cat_type_of trans_type, main_name) = None"
    and bad: "\<not> creation_ok (create_category_api e (length (category_calls s))
                            (category_request main_name (cat_type_of trans_type) ''0''))"
    by simp_all
  show "fst (ensure_category_hierarchy e full_path trans_type s) = Inr ''0''"
    by (simp only: ensure_unfold [OF ne parts] cmc_fails [OF miss bad] prod.case bool.case fst_conv)
next
  assume a: "full_path \<noteq> [] \<and> full_path \<noteq> ''Umbuchung''
        \<and> category_parts full_path = main_name # sub_name # ignored
        \<and> category_map s (cat_type_of trans_type, main_name) = Some parent_id
        \<and> category_map s (cat_type_of trans_type, main_name @ '':'' @ sub_name) = None
        \<and> \<not> creation_ok (create_category_api e (length (category_calls s))
                            (category_request sub_name (cat_type_of trans_type) parent_id))"
  then have ne: "full_path \<noteq> []" "full_path \<noteq> ''Umbuchung''"
    and parts: "category_parts full_path = main_name # sub_name # ignored"
    and have_main: "category_map s (cat_type_of trans_type, main_name) = Some parent_id"
    and miss: "category_map s (cat_type_of trans_type, main_name @ '':'' @ sub_name) = None"
    and bad: "\<not> creation_ok (create_category_api e (length (category_calls s))
                            (category_request sub_name (cat_type_of trans_type) parent_id))"
    by simp_all
  from have_main have p: "create_missing_category e (cat_type_of trans_type, main_name)
      (category_request main_name (cat_type_of trans_type) ''0'') s = (True, s)"
    by (simp add: cmc_present)
  show "fst (ensure_category_hierarchy e full_path trans_type s) = Inr parent_id"
    by (simp only: ensure_unfold [OF ne parts] p have_main cmc_fails [OF miss bad]
          prod.case bool.case option.case list.case fst_conv)
next
  assume a: "full_path \<noteq> [] \<and> full_path \<noteq> ''Umbuchung''
        \<and> category_parts full_path = main_name # sub_name # ignored
        \<and> category_map s (cat_type_of trans_type, main_name) = None
        \<and> create_category_api e (length (category_calls s))
              (category_request main_name (cat_type_of trans_type) ''0'')
            = ApiResp True (Some parent_id)
        \<and> category_map s (cat_type_of trans_type, main_name @ '':'' @ sub_name) = None
        \<and> \<not> creation_ok (create_category_api e (Suc (length (category_calls s)))
                            (category_request sub_name (cat_type_of trans_type) parent_id))"
  then have ne: "full_path \<noteq> []" "full_path \<noteq> ''Umbuchung''"
    and parts: "category_parts full_path = main_name # sub_name # ignored"
    and miss1: "category_map s (cat_type_of trans_type, main_name) = None"
    and ok1: "create_category_api e (length (category_calls s))
              (category_request main_name (cat_type_of trans_type) ''0'')
            = ApiResp True (Some parent_id)"
    and miss2: "category_map s (cat_type_of trans_type, main_name @ '':'' @ sub_name) = None"
    and bad: "\<not> creation_ok (create_category_api e (Suc (length (category_calls s)))
                            (category_request sub_name (cat_type_of trans_type) parent_id))"
    by simp_all
  define s1 where "s1 = s\<lparr>category_calls := category_calls s
                  @ [(category_request main_name (cat_type_of trans_type) ''0'',
                      ApiResp True (Some parent_id))],
               category_map := (category_map s)((cat_type_of trans_type, main_name) \<mapsto> parent_id),
               stats := increment_categories (stats s)\<rparr>"
  have c1: "create_missing_category e (cat_type_of trans_type, main_name)
      (category_request main_name (cat_type_of trans_type) ''0'') s = (True, s1)"
    unfolding s1_def by (rule cmc_succeeds [OF miss1 ok1])
  have main1: "category_map s1 (cat_type_of trans_type, main_name) = Some parent_id"
    by (simp add: s1_def)
  from miss2 have miss2': "category_map s1 (cat_type_of trans_type, main_name @ '':'' @ sub_name) = None"
    by (simp add: s1_def)
  from bad have bad': "\<not> creation_ok (create_category_api e (length (category_calls s1))
                            (category_request sub_name (cat_type_of trans_type) parent_id))"
    by (simp add: s1_def)
  show "fst (ensure_category_hierarchy e full_path trans_type s) = Inr parent_id"
    by (simp only: ensure_unfold [OF ne parts] c1 main1 cmc_fails [OF miss2' bad']
          prod.case bool.case option.case list.case fst_conv)
qed

text \<open>
  Witness for C7: with a ledger that refuses every creation, \<open>Food:Lunch\<close> yields
  \<open>"0"\<close> from an empty map and the id \<open>11\<close> of \<open>Food\<close> when only \<open>Food\<close> is known.
\<close>

theorem C7_graceful_degradation_witness:
  "fst (ensure_category_hierarchy (sample_env [] False) ''Food:Lunch'' 3 sample_state) = Inr ''0''
   \<and> fst (ensure_category_hierarchy (sample_env [] False) ''Food:Lunch'' 3
           (sample_state\<lparr>category_map := [(2, ''Food'') \<mapsto> ''11'']\<rparr>)) = Inr ''11''"
proof -
  have parts: "category_parts ''Food:Lunch'' = [''Food'', ''Lunch'']" by code_simp
  have ct: "cat_type_of 3 = 2" by (simp add: cat_type_of_def)
  have ne: "''Food:Lunch'' \<noteq> [] \<and> ''Food:Lunch'' \<noteq> ''Umbuchung''" by simp
  have refuse: "\<not> creation_ok (create_category_api (sample_env [] False) n p)" for n p
    by (simp add: sample_env_def)
  have m0: "category_map sample_state (2, ''Food'') = None"
    by (simp add: sample_state_def)
  have m1: "category_map (sample_state\<lparr>category_map := [(2, ''Food'') \<mapsto> ''11'']\<rparr>)
              (2, ''Food'') = Some ''11''"
    "category_map (sample_state\<lparr>category_map := [(2, ''Food'') \<mapsto> ''11'']\<rparr>)
              (2, ''Food'' @ '':'' @ ''Lunch'') = None"
    by simp_all
  from C7_graceful_degradation [where e = "sample_env [] False" and full_path = "''Food:Lunch''"
      and trans_type = 3 and s = sample_state and main_name = "''Food''"
      and more_parts = "[''Lunch'']"]
    parts ct ne refuse m0
  have w1: "fst (ensure_category_hierarchy (sample_env [] False) ''Food:Lunch'' 3 sample_state)
      = Inr ''0''"
    by simp
  from C7_graceful_degradation [where e = "sample_env [] False" and full_path = "''Food:Lunch''"
      and trans_type = 3 and s = "sample_state\<lparr>category_map := [(2, ''Food'') \<mapsto> ''11'']\<rparr>"
      and main_name = "''Food''" and sub_name = "''Lunch''" and ignored = "[]"
      and parent_id = "''11''"]
    parts ct ne refuse m1
  have w2: "fst (ensure_category_hierarchy (sample_env [] False) ''Food:Lunch'' 3
           (sample_state\<lparr>category_map := [(2, ''Food'') \<mapsto> ''11'']\<rparr>)) = Inr ''11''"
    by simp
  from w1 w2 show ?thesis by (rule conjI)
qed


text \<open>
  Claim C8, as the code has it. One invocation sends at most one creation request per
  level, so at most two, and the counter of new categories grows by exactly the number of
  those requests that succeeded. A successful creation of a missing key stores the
  returned id under that key and adds one to the counter. When no creation request of an
  invocation failed, a second invocation with the same path and type hint sends nothing:
  it returns the same id and leaves the state, the category map and the counter as they
  are. (A failed creation is not remembered: the next invocation asks again.)
\<close>

theorem C8_category_caching:
  "(case ensure_category_hierarchy e full_path trans_type s of
      (r1, s1) \<Rightarrow>
        (\<exists>new. category_calls s1 = category_calls s @ new \<and> length new \<le> 2
           \<and> new_categories (stats s1) =
               new_categories (stats s) + int (length (filter (\<lambda>c. creation_ok (snd c)) new))
           \<and> ((\<forall>c \<in> set new. creation_ok (snd c))
                \<longrightarrow> ensure_category_hierarchy e full_path trans_type s1 = (r1, s1))))
   \<and> (category_map s key = None
        \<and> create_category_api e (length (category_calls s)) p = ApiResp True (Some cid)
        \<longrightarrow> (case create_missing_category e key p s of
               (created, s') \<Rightarrow>
                 created \<and> category_map s' = (category_map s)(key \<mapsto> cid)
                 \<and> new_categories (stats s') = new_categories (stats s) + 1))"
proof (intro conjI impI)
  show "case ensure_category_hierarchy e full_path trans_type s of
      (r1, s1) \<Rightarrow>
        (\<exists>new. category_calls s1 = category_calls s @ new \<and> length new \<le> 2
           \<and> new_categories (stats s1) =
               new_categories (stats s) + int (length (filter (\<lambda>c. creation_ok (snd c)) new))
           \<and> ((\<forall>c \<in> set new. creation_ok (snd c))
                \<longrightarrow> ensure_category_hierarchy e full_path trans_type s1 = (r1, s1)))"
    by (rule ensure_effect)
next
  assume "category_map s key = None
        \<and> create_category_api e (length (category_calls s)) p = ApiResp True (Some cid)"
  then have "category_map s key = None"
    and "create_category_api e (length (category_calls s)) p = ApiResp True (Some cid)"
    by simp_all
  from cmc_succeeds [OF this]
  show "case create_missing_category e key p s of
               (created, s') \<Rightarrow>
                 created \<and> category_map s' = (category_map s)(key \<mapsto> cid)
                 \<and> new_categories (stats s') = new_categories (stats s) + 1"
    by (simp add: increment_categories_def)
qed

text \<open>
  Counterexample to C8 as stated. A ledger that refuses every creation is asked once by
  each of two invocations for \<open>Food\<close>: two requests, and the second invocation is not
  answered from the map. A ledger that accepts is asked twice by a single invocation for
  the two-level path \<open>Food:Lunch\<close>.
\<close>

theorem C8_single_request_counterexample:
  "length (category_calls (snd (ensure_category_hierarchy (sample_env [] False) ''Food'' 3
             (snd (ensure_category_hierarchy (sample_env [] False) ''Food'' 3 sample_state))))) = 2
   \<and> length (category_calls
        (snd (ensure_category_hierarchy (sample_env [] True) ''Food:Lunch'' 3 sample_state))) = 2"
  by code_simp

text \<open>
  Witness for C8: after \<open>Food:Lunch\<close> was created in an accepting ledger, asking again
  changes nothing.
\<close>

theorem C8_category_caching_witness:
  "ensure_category_hierarchy (sample_env [] True) ''Food:Lunch'' 3
     (snd (ensure_category_hierarchy (sample_env [] True) ''Food:Lunch'' 3 sample_state))
   = ensure_category_hierarchy (sample_env [] True) ''Food:Lunch'' 3 sample_state"
proof -
  let ?e = "sample_env [] True"
  obtain r1 s1 where r: "ensure_category_hierarchy ?e ''Food:Lunch'' 3 sample_state = (r1, s1)"
    by (cases "ensure_category_hierarchy ?e ''Food:Lunch'' 3 sample_state")
  have "list_all (\<lambda>c. creation_ok (snd c))
          (category_calls (snd (ensure_category_hierarchy ?e ''Food:Lunch'' 3 sample_state)))"
    by code_simp
  with r have ok: "\<forall>c \<in> set (category_calls s1). creation_ok (snd c)"
    by (simp add: list_all_iff)
  have c0: "category_calls sample_state = []" by (simp add: sample_state_def)
  from C8_category_caching [where e = ?e and full_path = "''Food:Lunch''" and trans_type = 3
      and s = sample_state]
  have "\<exists>new. category_calls s1 = category_calls sample_state @ new \<and> length new \<le> 2
           \<and> new_categories (stats s1) =
               new_categories (stats sample_state)
                 + int (length (filter (\<lambda>c. creation_ok (snd c)) new))
           \<and> ((\<forall>c \<in> set new. creation_ok (snd c))
                \<longrightarrow> ensure_category_hierarchy ?e ''Food:Lunch'' 3 s1 = (r1, s1))"
    unfolding r by simp
  with ok c0 have "ensure_category_hierarchy ?e ''Food:Lunch'' 3 s1 = (r1, s1)" by auto
  with r show ?thesis by simp
qed

section \<open>The marker in the comment\<close>

lemma py_in_Nil [simp]: "py_in [] s"
  by (cases s) (simp_all add: starts_with_def)

lemma starts_with_iff: "starts_with sub s \<longleftrightarrow> (\<exists>ss. s = sub @ ss)"
proof
  assume "starts_with sub s"
  then have "s = sub @ drop (length sub) s"
    unfolding starts_with_def by (metis append_take_drop_id)
  then show "\<exists>ss. s = sub @ ss" ..
next
  assume "\<exists>ss. s = sub @ ss"
  then show "starts_with sub s" by (auto simp: starts_with_def)
qed

lemma py_in_iff: "py_in sub s \<longleftrightarrow> (\<exists>ps ss. s = ps @ sub @ ss)"
proof (induction s)
  case Nil
  then show ?case by auto
next
  case (Cons c cs)
  show ?case
  proof
    assume "py_in sub (c # cs)"
    then consider "starts_with sub (c # cs)" | "py_in sub cs" by auto
    then show "\<exists>ps ss. c # cs = ps @ sub @ ss"
    proof cases
      case 1
      then obtain ss where "c # cs = sub @ ss" by (auto simp: starts_with_iff)
      then have "c # cs = [] @ sub @ ss" by simp
      then show ?thesis by blast
    next
      case 2
      with Cons.IH obtain ps ss where "cs = ps @ sub @ ss" by auto
      then have "c # cs = (c # ps) @ sub @ ss" by simp
      then show ?thesis by blast
    qed
  next
    assume "\<exists>ps ss. c # cs = ps @ sub @ ss"
    then obtain ps ss where e: "c # cs = ps @ sub @ ss" by blast
    show "py_in sub (c # cs)"
    proof (cases ps)
      case Nil
      with e have "starts_with sub (c # cs)" by (auto simp: starts_with_iff)
      then show ?thesis by simp
    next
      case (Cons p ps')
      with e have "cs = ps' @ sub @ ss" by simp
      with Cons.IH have "py_in sub cs" by blast
      then show ?thesis by simp
    qed
  qed
qed

lemma py_in_take: "py_in sub (take n s) \<Longrightarrow> py_in sub s"
proof -
  assume "py_in sub (take n s)"
  then obtain ps ss where "take n s = ps @ sub @ ss" by (auto simp: py_in_iff)
  then have "s = ps @ sub @ (ss @ drop n s)"
    by (metis append_take_drop_id append.assoc)
  then show ?thesis unfolding py_in_iff by blast
qed

lemma py_in_marker: "py_in sub (ps @ sub @ ss)"
  unfolding py_in_iff by blast

lemma starts_with_append_char:
  assumes "starts_with sep (xs @ c # ys)" "c \<notin> set sep"
  shows "starts_with sep xs"
proof (cases "length sep \<le> length xs")
  case True
  with assms(1) show ?thesis by (simp add: starts_with_def)
next
  case False
  then have "take (length sep) (xs @ c # ys) = xs @ c # take (length sep - Suc (length xs)) ys"
    by (simp add: take_Cons')
  with assms(1) have "sep = xs @ c # take (length sep - Suc (length xs)) ys"
    by (simp add: starts_with_def)
  then have "c \<in> set sep" by (metis in_set_conv_decomp)
  with assms(2) show ?thesis by simp
qed

lemma py_in_append_char:
  assumes "\<not> py_in m xs" "\<not> py_in m ys" "c \<notin> set m"
  shows "\<not> py_in m (xs @ c # ys)"
  using assms(1)
proof (induction xs)
  case Nil
  have "\<not> starts_with m (c # ys)"
    using starts_with_append_char [of m "[]" c ys] assms(3) Nil
    by (auto simp: starts_with_def)
  with assms(2) show ?case by simp
next
  case (Cons x xs)
  then have a: "\<not> starts_with m (x # xs)" and b: "\<not> py_in m xs" by auto
  from a have "\<not> starts_with m ((x # xs) @ c # ys)"
    using starts_with_append_char [of m "x # xs" c ys] assms(3) by blast
  with Cons.IH [OF b] show ?case by simp
qed

lemma split_first_None: "\<not> py_in sep s \<Longrightarrow> split_first sep s = None"
  by (induction s) auto

lemma split_first_at:
  assumes "\<not> py_in sep d" "c \<notin> set sep"
  shows "split_first sep (d @ c # sep @ rest) = Some (d @ [c], rest)"
  using assms(1)
proof (induction d)
  case Nil
  then have ne: "sep \<noteq> []" by auto
  have n: "\<not> starts_with sep (c # sep @ rest)"
    using starts_with_append_char [of sep "[]" c "sep @ rest"] assms(2) ne
    by (auto simp: starts_with_def)
  from ne obtain x xs where sx: "sep = x # xs" by (cases sep) auto
  have "split_first sep (sep @ rest) = Some ([], rest)"
    unfolding sx by (simp add: starts_with_def)
  with n show ?case by simp
next
  case (Cons x d)
  then have a: "\<not> starts_with sep (x # d)" and b: "\<not> py_in sep d" by auto
  from a have "\<not> starts_with sep ((x # d) @ c # sep @ rest)"
    using starts_with_append_char [of sep "x # d" c "sep @ rest"] assms(2) by blast
  with Cons.IH [OF b] show ?case by simp
qed

lemma py_in_single: "py_in [c] s \<longleftrightarrow> c \<in> set s"
  by (induction s) (auto simp: starts_with_def)

lemma py_split_single:
  assumes "\<not> py_in sep s"
  shows "py_split sep s = [s]"
  by (subst py_split.simps) (simp add: split_first_None [OF assms])

lemma py_split_at:
  assumes "\<not> py_in sep d" "c \<notin> set sep"
  shows "py_split sep (d @ c # sep @ rest) = (d @ [c]) # py_split sep rest"
proof -
  from assms(1) have "sep \<noteq> []" by auto
  then show ?thesis
    by (subst py_split.simps) (simp add: split_first_at [OF assms])
qed

lemma split_first_char:
  assumes "c \<notin> set a"
  shows "split_first [c] (a @ c # b) = Some (a, b)"
  using assms by (induction a) (auto simp: starts_with_def)

lemma py_split_char:
  assumes "c \<notin> set a"
  shows "py_split [c] (a @ c # b) = a # py_split [c] b"
  by (subst py_split.simps) (simp add: split_first_char [OF assms])

lemma py_split_char_none:
  assumes "c \<notin> set s"
  shows "py_split [c] s = [s]"
  using assms by (simp add: py_split_single py_in_single)

lemma raw_id_str_comment:
  assumes "\<not> py_in ''[B4ID:'' d" and "\<not> py_in ''[B4ID:'' i" and "CHR '']'' \<notin> set i"
  shows "raw_id_str (d @ '' [B4ID:'' @ i @ '']'') = Inr i"
proof -
  have "\<not> py_in ''[B4ID:'' (i @ CHR '']'' # [])"
    using py_in_append_char [OF assms(2), of "[]" "CHR '']''"] by (simp add: starts_with_def)
  then have 1: "py_split ''[B4ID:'' (i @ '']'') = [i @ '']'']"
    by (simp add: py_split_single)
  have "py_split ''[B4ID:'' (d @ CHR '' '' # ''[B4ID:'' @ (i @ '']'')) =
          (d @ '' '') # py_split ''[B4ID:'' (i @ '']'')"
    by (rule py_split_at [OF assms(1)]) simp
  with 1 have 2: "py_split ''[B4ID:'' (d @ '' [B4ID:'' @ i @ '']'') = [d @ '' '', i @ '']'']"
    by simp
  have 3: "py_split '']'' (i @ '']'') = i # py_split '']'' []"
    using py_split_char [OF assms(3), of "[]"] by simp
  show ?thesis unfolding raw_id_str_def 2 using 3 by simp
qed

lemma comment_has_marker: "py_in ''[B4ID:'' (d @ '' [B4ID:'' @ i @ '']'')"
  using py_in_marker [of "''[B4ID:''" "d @ '' ''" "i @ '']''"] by simp

lemma payload_comment:
  "tp_comment (create_transaction_payload e acc amt dt desc cat ty i partner) =
     take 200 desc @ '' [B4ID:'' @ i @ '']''"
  by (simp add: create_transaction_payload_def Let_def)


lemma load_ids_single:
  assumes "\<not> py_in ''[B4ID:'' d" and "\<not> py_in ''[B4ID:'' i" and "CHR '']'' \<notin> set i"
  shows "load_ids_loop (\<lparr>ezb_comment = Some (d @ '' [B4ID:'' @ i @ '']'')\<rparr> # txs) acc =
         load_ids_loop txs (acc \<union> set (py_split ''_'' i))"
  using raw_id_str_comment [OF assms] comment_has_marker [of d i]
  by (simp add: dict_get_def)

text \<open>
  Claim C4, as the code has it. The comment of a created transaction is the description
  cut to 200 characters, a space, and the marker \<open>[B4ID:<id>]\<close>; for a pair the id is
  \<open>id1_id2\<close>. Read back by the loop of \<open>_load_existing_ids\<close>, a comment with a single id
  \<open>a\<close> yields \<open>{a}\<close> and one with the combined id of \<open>a\<close> and \<open>b\<close> yields \<open>{a, b}\<close>,
  provided that no id contains an underscore, a closing bracket or the marker prefix
  \<open>[B4ID:\<close>, and that the description does not contain the marker prefix.
\<close>

theorem C4_marker_round_trip:
  assumes "\<not> py_in ''[B4ID:'' desc"
    and "CHR ''_'' \<notin> set a" and "CHR '']'' \<notin> set a" and "\<not> py_in ''[B4ID:'' a"
    and "CHR ''_'' \<notin> set b" and "CHR '']'' \<notin> set b" and "\<not> py_in ''[B4ID:'' b"
    and "b4_id (source_tx pair) = a" and "b4_id (dest_tx pair) = b"
  shows "tp_comment (create_transaction_payload e acc amt dt desc cat ty a partner) =
           take 200 desc @ '' [B4ID:'' @ a @ '']''
         \<and> load_ids_loop
             [\<lparr>ezb_comment =
                 Some (tp_comment (create_transaction_payload e acc amt dt desc cat ty a partner))\<rparr>]
             {} = {a}
         \<and> tp_comment (create_transaction_payload e acc amt dt desc cat ty (combined_id pair)
                          partner) =
           take 200 desc @ '' [B4ID:'' @ a @ ''_'' @ b @ '']''
         \<and> load_ids_loop
             [\<lparr>ezb_comment =
                 Some (tp_comment (create_transaction_payload e acc amt dt desc cat ty
                                     (combined_id pair) partner))\<rparr>]
             {} = {a, b}"
proof -
  from assms(1) have d: "\<not> py_in ''[B4ID:'' (take 200 desc)"
    using py_in_take by blast
  have sa: "py_split ''_'' a = [a]" and sb: "py_split ''_'' b = [b]"
    using assms(2,5) by (simp_all add: py_split_char_none)
  have sab: "py_split ''_'' (a @ ''_'' @ b) = [a, b]"
    using py_split_char [OF assms(2), of b] sb by simp
  have mab: "\<not> py_in ''[B4ID:'' (a @ ''_'' @ b)"
    using py_in_append_char [OF assms(4,7), of "CHR ''_''"] by simp
  have bab: "CHR '']'' \<notin> set (a @ ''_'' @ b)"
    using assms(3,6) by simp
  have cid: "combined_id pair = a @ ''_'' @ b"
    by (simp add: combined_id_def assms(8,9))
  have 1: "load_ids_loop [\<lparr>ezb_comment = Some (take 200 desc @ '' [B4ID:'' @ a @ '']'')\<rparr>] {}
           = {a}"
    unfolding load_ids_single [OF d assms(4,3)] sa by simp
  have 2: "load_ids_loop
             [\<lparr>ezb_comment = Some (take 200 desc @ '' [B4ID:'' @ (a @ ''_'' @ b) @ '']'')\<rparr>] {}
           = {a, b}"
    unfolding load_ids_single [OF d mab bab] sab by simp
  from 1 2 show ?thesis
    unfolding payload_comment cid by simp
qed

text \<open>
  Witness for C4: the ids \<open>t9\<close> and \<open>t10\<close> and the description \<open>rent\<close>.
\<close>

theorem C4_marker_round_trip_witness:
  "load_ids_loop
     [\<lparr>ezb_comment =
         Some (tp_comment (create_transaction_payload (sample_env [] True) (Some ''acc-1'') 50
                 (datetime_of_day 19755) ''rent'' ''0'' EXPENSE ''t9'' (Some ''0'')))\<rparr>] {}
     = {''t9''}
   \<and> load_ids_loop
     [\<lparr>ezb_comment =
         Some (tp_comment (create_transaction_payload (sample_env [] True) (Some ''acc-1'') 50
                 (datetime_of_day 19755) ''rent'' ''0'' EXPENSE
                 (combined_id \<lparr>source_tx = sample_tx ''t9'' 19737 100 DEBIT ''100'',
                               dest_tx = sample_tx ''t10'' 19737 100 CREDIT ''200''\<rparr>)
                 (Some ''0'')))\<rparr>] {}
     = {''t9'', ''t10''}"
proof -
  have h: "\<not> py_in ''[B4ID:'' ''rent''"
    "CHR ''_'' \<notin> set ''t9''" "CHR '']'' \<notin> set ''t9''" "\<not> py_in ''[B4ID:'' ''t9''"
    "CHR ''_'' \<notin> set ''t10''" "CHR '']'' \<notin> set ''t10''" "\<not> py_in ''[B4ID:'' ''t10''"
    "b4_id (source_tx \<lparr>source_tx = sample_tx ''t9'' 19737 100 DEBIT ''100'',
                       dest_tx = sample_tx ''t10'' 19737 100 CREDIT ''200''\<rparr>) = ''t9''"
    "b4_id (dest_tx \<lparr>source_tx = sample_tx ''t9'' 19737 100 DEBIT ''100'',
                       dest_tx = sample_tx ''t10'' 19737 100 CREDIT ''200''\<rparr>) = ''t10''"
    by (simp_all add: starts_with_def sample_tx_def)
  from C4_marker_round_trip [OF h, where e = "sample_env [] True" and acc = "Some ''acc-1''"
      and amt = 50 and dt = "datetime_of_day 19755" and cat = "''0''" and ty = EXPENSE
      and partner = "Some ''0''"]
  show ?thesis by blast
qed

text \<open>
  Counterexample to C4 as stated: the ids \<open>a]b\<close> and \<open>a[B4ID:b\<close> contain no underscore
  and the description \<open>rent\<close> no marker prefix, yet both are read back as \<open>a\<close>.
\<close>

theorem C4_bracket_in_id_counterexample:
  "load_ids_loop
     [\<lparr>ezb_comment =
         Some (tp_comment (create_transaction_payload (sample_env [] True) (Some ''acc-1'') 50
                 (datetime_of_day 19755) ''rent'' ''0'' EXPENSE ''a]b'' (Some ''0'')))\<rparr>] {}
     = {''a''}
   \<and> {''a''} \<noteq> {''a]b''}
   \<and> load_ids_loop
     [\<lparr>ezb_comment =
         Some (tp_comment (create_transaction_payload (sample_env [] True) (Some ''acc-1'') 50
                 (datetime_of_day 19755) ''rent'' ''0'' EXPENSE ''a[B4ID:b'' (Some ''0'')))\<rparr>] {}
     = {''a''}
   \<and> {''a''} \<noteq> {''a[B4ID:b''}"
  by code_simp

section \<open>Idempotence of the import\<close>













lemma ledger_ids_stats [simp]: "ledger_ids (s\<lparr>stats := x\<rparr>) = ledger_ids s"
  by (simp add: ledger_ids_def)







lemma covered_Nil [simp]: "covered e [] P"
  by (simp add: covered_def)















lemma import_transfers_Nil [simp]: "import_transfers e [] s = s"
  by (simp add: import_transfers_def find_matches_def)





end
